theory Spec2Isabelle
  imports Complex_Main "HOL-Library.Word"
begin

unbundle bit_operations_syntax

section \<open>Python values used by canmatrix.py\<close>

text \<open>
  Exceptions of the source are values of \<open>error\<close>; a function that can raise
  returns \<open>error + 'a\<close> with \<open>Inl\<close> for the exception.
\<close>

datatype error =
    Exception string
  | ValueError
  | TypeError
  | IndexError
  | UnboundLocalError
  | DivisionByZero
  | InvalidOperation
  | Overflow
  | OverflowError
  | BitstructError
  | FloatField

text \<open>
  \<open>decimal.Decimal\<close> (\<open>defaultFloatFactory\<close>). A finite Decimal denotes a
  rational number. The arithmetic of the module returns the exact result rounded by the
  default context: to 28 significant digits, ties to even; to a multiple of
  \<open>10\<^sup>E\<^sup>t\<^sup>i\<^sup>n\<^sup>y\<close> below the least normal exponent (an underflow, which is not
  trapped); and it raises \<open>Overflow\<close> above the greatest exponent. The sign of a zero is
  not kept. No operation of the default context returns \<open>Infinity\<close> or \<open>NaN\<close>
  from finite operands (\<open>Overflow\<close>, \<open>DivisionByZero\<close> and \<open>InvalidOperation\<close>
  are trapped), so these come from outside only: as values handed to \<open>phys2raw\<close> they
  are values of their own below, and the attributes of a signal are finite.
\<close>

type_synonym decimal = rat

section \<open>Signal\<close>

text \<open>The argument of \<open>multiplexSetter\<close>: \<open>None\<close>, the string
  \<open>'Multiplexor'\<close>, or a number.\<close>

datatype multiplex_arg = MuxNone | MuxMultiplexor | MuxNumber int

text \<open>A value of the \<open>attributes\<close> dictionary, as far as \<open>int()\<close>
  sees it: \<open>int()\<close> converts it to the given integer, or raises the given
  exception on it (\<open>ValueError\<close> on a text that is no number, \<open>TypeError\<close> on
  \<open>None\<close> or a list, \<open>OverflowError\<close> on an infinite number).\<close>

datatype attr_value = IntLike int | IntRaises error

text \<open>
  The fields of class \<open>Signal\<close> that the codec reads. \<open>offset\<close>,
  \<open>factor\<close>, \<open>min\<close> and \<open>max\<close> are finite Decimals. \<open>values_tbl\<close>
  is the dictionary \<open>values\<close> in iteration order (keys are unique);
  \<open>mux_val\<close> and \<open>is_multiplexer\<close> are the attributes written by
  \<open>multiplexSetter\<close>.
\<close>

record signal =
  name :: string
  startBit :: int
  size_sig :: int
  is_little_endian :: bool
  is_signed :: bool
  offset :: decimal
  factor :: decimal
  min_sig :: decimal
  max_sig :: decimal
  multiplex :: multiplex_arg
  is_float :: bool
  attributes :: "string \<rightharpoonup> attr_value"
  values_tbl :: "(int \<times> string) list"
  mux_val :: "int option"
  is_multiplexer :: bool

subsection \<open>Start bit conversion\<close>

text \<open>\<open>startBit - (startBit % 8) + 7 - (startBit % 8)\<close>; Python's \<open>%\<close> with a
  positive modulus is HOL's \<open>mod\<close> on \<open>int\<close>.\<close>

definition reverse_bit_numbering :: "int \<Rightarrow> int" where
  "reverse_bit_numbering b = b - (b mod 8) + 7 - (b mod 8)"

text \<open>\<open>bitNumbering is not None and bitNumbering != self.is_little_endian\<close>: the
  argument is \<open>None\<close> or a number, compared with a bool (\<open>True == 1\<close>).\<close>

definition numbering_differs :: "int option \<Rightarrow> bool \<Rightarrow> bool" where
  "numbering_differs bitNumbering le =
     (case bitNumbering of None \<Rightarrow> False | Some b \<Rightarrow> b \<noteq> (if le then 1 else 0))"

text \<open>
  \<open>Signal.setStartbit\<close>. The result is the outcome together with the signal after the
  call: the exception is raised before \<open>self.startBit\<close> is assigned.
\<close>

definition setStartbit ::
  "signal \<Rightarrow> int \<Rightarrow> int option \<Rightarrow> bool option \<Rightarrow> (error + unit) \<times> signal" where
  "setStartbit s sb bitNumbering startLittle =
     (let sb1 = (if numbering_differs bitNumbering (is_little_endian s)
                 then reverse_bit_numbering sb else sb);
          sb2 = (if startLittle = Some True \<and> \<not> is_little_endian s
                 then sb1 + 1 - size_sig s else sb1)
      in if sb2 < 0 then (Inl (Exception ''startBit lower zero''), s)
         else (Inr (), s\<lparr>startBit := sb2\<rparr>))"

text \<open>The bit position \<open>setStartbit\<close> computes before it tests the sign.\<close>

definition computed_startBit :: "signal \<Rightarrow> int \<Rightarrow> int option \<Rightarrow> bool option \<Rightarrow> int" where
  "computed_startBit s sb bitNumbering startLittle =
     (let sb1 = (if numbering_differs bitNumbering (is_little_endian s)
                 then reverse_bit_numbering sb else sb)
      in if startLittle = Some True \<and> \<not> is_little_endian s
         then sb1 + 1 - size_sig s else sb1)"

text \<open>\<open>Signal.getStartbit\<close>.\<close>

definition getStartbit :: "signal \<Rightarrow> int option \<Rightarrow> bool option \<Rightarrow> int" where
  "getStartbit s bitNumbering startLittle =
     (let i1 = (if startLittle = Some True \<and> \<not> is_little_endian s
                then startBit s + size_sig s - 1 else startBit s)
      in if numbering_differs bitNumbering (is_little_endian s)
         then reverse_bit_numbering i1 else i1)"

subsection \<open>Rounding to a number of digits\<close>

text \<open>The number of digits of a positive integer \<open>n\<close> in base \<open>b\<close>.\<close>

function digits :: "int \<Rightarrow> int \<Rightarrow> nat" where
  "digits b n = (if n < b \<or> b < 2 then 1 else Suc (digits b (n div b)))"
  by pat_completeness auto
termination
  by (relation "measure (\<lambda>(b, n). nat n)") (auto intro: int_div_less_self)

declare digits.simps [simp del]

text \<open>\<open>b\<^sup>e\<close> for an integer exponent.\<close>

definition power_of :: "int \<Rightarrow> int \<Rightarrow> rat" where
  "power_of b e = (if 0 \<le> e then of_int b ^ nat e else 1 / of_int b ^ nat (- e))"

text \<open>The exponent of the leading digit of a nonzero number in base \<open>b\<close>: the integer
  \<open>a\<close> with \<open>b\<^sup>a \<le> \<bar>x\<bar> < b\<^sup>a\<^sup>+\<^sup>1\<close>.\<close>

definition adjusted :: "int \<Rightarrow> rat \<Rightarrow> int" where
  "adjusted b x =
     (if 1 \<le> \<bar>x\<bar> then int (digits b \<lfloor>\<bar>x\<bar>\<rfloor>) - 1
      else - int (digits b (\<lceil>1 / \<bar>x\<bar>\<rceil> - 1)))"

text \<open>Rounding to the nearest integer, ties to the even one (\<open>ROUND_HALF_EVEN\<close>, and
  the rounding of binary floating point).\<close>

definition round_half_even :: "rat \<Rightarrow> int" where
  "round_half_even q =
     (let f = \<lfloor>q\<rfloor>; d = q - of_int f
      in if d < 1 / 2 then f else if 1 / 2 < d then f + 1
         else if even f then f else f + 1)"

text \<open>Rounding to the nearest multiple of \<open>b\<^sup>e\<close>.\<close>

definition round_to :: "int \<Rightarrow> int \<Rightarrow> rat \<Rightarrow> rat" where
  "round_to b e x = of_int (round_half_even (x / power_of b e)) * power_of b e"

subsection \<open>Decimal arithmetic\<close>

text \<open>The default context of module \<open>decimal\<close>: \<open>prec\<close>, \<open>Emax\<close>, \<open>Emin\<close>, and
  \<open>Etiny = Emin - prec + 1\<close>, the exponent of the least subnormal number.\<close>

definition prec :: nat where
  "prec = 28"

definition Emax :: int where
  "Emax = 999999"

definition Emin :: int where
  "Emin = - 999999"

definition Etiny :: int where
  "Etiny = Emin - (int prec - 1)"

text \<open>
  What the context makes of the exact result \<open>x\<close> of an operation. A result whose
  leading digit lies below \<open>Emin\<close> is rounded to a multiple of \<open>10\<^sup>E\<^sup>t\<^sup>i\<^sup>n\<^sup>y\<close>, possibly
  to zero; any other is rounded to \<open>prec\<close> digits, and \<open>Overflow\<close> is raised when
  the leading digit of the rounded result lies above \<open>Emax\<close>.
\<close>

definition ctx_round :: "rat \<Rightarrow> error + decimal" where
  "ctx_round x =
     (if x = 0 then Inr 0
      else if adjusted 10 x < Emin then Inr (round_to 10 Etiny x)
      else (let r = round_to 10 (adjusted 10 x - (int prec - 1)) x
            in if Emax < adjusted 10 r then Inl Overflow else Inr r))"

definition dec_add :: "decimal \<Rightarrow> decimal \<Rightarrow> error + decimal" where
  "dec_add a b = ctx_round (a + b)"

definition dec_sub :: "decimal \<Rightarrow> decimal \<Rightarrow> error + decimal" where
  "dec_sub a b = ctx_round (a - b)"

definition dec_mul :: "decimal \<Rightarrow> decimal \<Rightarrow> error + decimal" where
  "dec_mul a b = ctx_round (a * b)"

text \<open>Division traps \<open>DivisionByZero\<close> and \<open>InvalidOperation\<close> (for \<open>0 / 0\<close>)
  in the default context: both are raised.\<close>

definition dec_div :: "decimal \<Rightarrow> decimal \<Rightarrow> error + decimal" where
  "dec_div a b =
     (if b = 0 then (if a = 0 then Inl InvalidOperation else Inl DivisionByZero)
      else ctx_round (a / b))"

text \<open>\<open>int(d)\<close> of a finite Decimal truncates towards zero.\<close>

definition int_of_decimal :: "decimal \<Rightarrow> int" where
  "int_of_decimal d = (if 0 \<le> d then \<lfloor>d\<rfloor> else \<lceil>d\<rceil>)"

text \<open>A number the context returns as it is: it has at most \<open>prec\<close> significant
  digits, its leading digit lies at or below \<open>Emax\<close>, and it is a multiple of
  \<open>10\<^sup>E\<^sup>t\<^sup>i\<^sup>n\<^sup>y\<close>.\<close>

definition exact :: "rat \<Rightarrow> bool" where
  "exact x \<longleftrightarrow> ctx_round x = Inr x"

subsection \<open>Binary floating point\<close>

text \<open>
  A Python \<open>float\<close> is an IEEE 754 double: 53 significant bits, exponents of the
  leading bit from -1022 to 1023, subnormal numbers that are multiples of
  \<open>2\<^sup>-\<^sup>1\<^sup>0\<^sup>7\<^sup>4\<close>. \<open>float_nearest\<close> is the double nearest to a number, ties to even.
\<close>

definition float_nearest :: "rat \<Rightarrow> rat" where
  "float_nearest x =
     (if x = 0 then 0
      else round_to 2 (if adjusted 2 x < - 1022 then - 1074 else adjusted 2 x - 52) x)"

text \<open>The true division of two integers with the exact quotient \<open>x\<close>: the nearest
  double, or \<open>OverflowError\<close> when that is \<open>2\<^sup>1\<^sup>0\<^sup>2\<^sup>4\<close> or more.\<close>

definition float_result :: "rat \<Rightarrow> error + rat" where
  "float_result x =
     (let r = float_nearest x in if 2 ^ 1024 \<le> \<bar>r\<bar> then Inl OverflowError else Inr r)"

subsection \<open>Raw range and default limits\<close>

text \<open>
  \<open>Signal.calculateRawRange\<close>, on the size and the signedness. \<open>2 ** e\<close> is an
  integer for \<open>e \<ge> 0\<close>; for \<open>e < 0\<close> it is a \<open>float\<close>, and so is
  \<open>rawRange - 1\<close> then. \<open>float_factory\<close> converts both exactly.
\<close>

definition calculateRawRange :: "int \<Rightarrow> bool \<Rightarrow> decimal \<times> decimal" where
  "calculateRawRange sz sg =
     (let e = sz - (if sg then 1 else 0)
      in if 0 \<le> e
         then (let rawRange = 2 ^ nat e in (if sg then - of_int rawRange else 0, of_int (rawRange - 1)))
         else (let rawRange = float_nearest (power_of 2 e)
               in (if sg then - rawRange else 0, float_nearest (rawRange - 1))))"

text \<open>\<open>Signal.calcMin\<close> and \<open>Signal.calcMax\<close>:
  \<open>self.offset + (rawMin * self.factor)\<close>.\<close>

definition calcMin :: "int \<Rightarrow> bool \<Rightarrow> decimal \<Rightarrow> decimal \<Rightarrow> error + decimal" where
  "calcMin sz sg off fac =
     (case dec_mul (fst (calculateRawRange sz sg)) fac of
        Inl e \<Rightarrow> Inl e
      | Inr p \<Rightarrow> dec_add off p)"

definition calcMax :: "int \<Rightarrow> bool \<Rightarrow> decimal \<Rightarrow> decimal \<Rightarrow> error + decimal" where
  "calcMax sz sg off fac =
     (case dec_mul (snd (calculateRawRange sz sg)) fac of
        Inl e \<Rightarrow> Inl e
      | Inr p \<Rightarrow> dec_add off p)"

subsection \<open>Multiplex role\<close>

text \<open>\<open>Signal.multiplexSetter\<close>: writes \<open>mux_val\<close> and \<open>is_multiplexer\<close>
  and returns the value to store in \<open>multiplex\<close>.\<close>

definition multiplexSetter :: "signal \<Rightarrow> multiplex_arg \<Rightarrow> signal \<times> multiplex_arg" where
  "multiplexSetter s v =
     (let s1 = s\<lparr>mux_val := None, is_multiplexer := False\<rparr>
      in case v of
           MuxNumber n \<Rightarrow> (s1\<lparr>mux_val := Some n\<rparr>, MuxNumber n)
         | MuxNone \<Rightarrow> (s1\<lparr>is_multiplexer := True\<rparr>, MuxNone)
         | MuxMultiplexor \<Rightarrow> (s1\<lparr>is_multiplexer := True\<rparr>, MuxMultiplexor))"

text \<open>\<open>__attrs_post_init__\<close>.\<close>

definition attrs_post_init :: "signal \<Rightarrow> signal" where
  "attrs_post_init s = (case multiplexSetter s (multiplex s) of (s1, m) \<Rightarrow> s1\<lparr>multiplex := m\<rparr>)"

text \<open>
  The constructor with every attribute of the model given,
  \<open>Signal(name, startBit, size, is_little_endian, is_signed, multiplex, offset, factor, min, max)\<close>:
  no value table, no attributes, not a float signal.
\<close>

definition Signal_init ::
  "string \<Rightarrow> int \<Rightarrow> int \<Rightarrow> bool \<Rightarrow> bool \<Rightarrow> multiplex_arg \<Rightarrow> decimal \<Rightarrow> decimal
   \<Rightarrow> decimal \<Rightarrow> decimal \<Rightarrow> signal" where
  "Signal_init nm sb sz le sg mux off fac mn mx =
     attrs_post_init
       \<lparr>name = nm, startBit = sb, size_sig = sz, is_little_endian = le, is_signed = sg,
        offset = off, factor = fac, min_sig = mn, max_sig = mx,
        multiplex = mux, is_float = False, attributes = Map.empty, values_tbl = [],
        mux_val = None, is_multiplexer = False\<rparr>"

text \<open>The constructor without \<open>min\<close> and \<open>max\<close>: the limits are the defaults
  computed by \<open>calcMin\<close> and \<open>calcMax\<close>, which can raise.\<close>

definition Signal_scaled ::
  "string \<Rightarrow> int \<Rightarrow> int \<Rightarrow> bool \<Rightarrow> bool \<Rightarrow> multiplex_arg \<Rightarrow> decimal \<Rightarrow> decimal
   \<Rightarrow> error + signal" where
  "Signal_scaled nm sb sz le sg mux off fac =
     (case calcMin sz sg off fac of
        Inl e \<Rightarrow> Inl e
      | Inr mn \<Rightarrow>
          (case calcMax sz sg off fac of
             Inl e \<Rightarrow> Inl e
           | Inr mx \<Rightarrow> Inr (Signal_init nm sb sz le sg mux off fac mn mx)))"

text \<open>The constructor
  \<open>Signal(name, startBit, size, is_little_endian, is_signed, multiplex)\<close>, with the
  defaults of the class for offset (0) and factor (1) as well.\<close>

definition Signal ::
  "string \<Rightarrow> int \<Rightarrow> int \<Rightarrow> bool \<Rightarrow> bool \<Rightarrow> multiplex_arg \<Rightarrow> error + signal" where
  "Signal nm sb sz le sg mux = Signal_scaled nm sb sz le sg mux 0 1"

subsection \<open>Raw and physical values\<close>

text \<open>
  A value handed to \<open>phys2raw\<close> or returned by \<open>raw2phys\<close>: a finite number
  compatible with \<open>decimal\<close> (an \<open>int\<close> or a finite \<open>Decimal\<close>), a string,
  \<open>Decimal('Infinity')\<close> or \<open>Decimal('-Infinity')\<close> (\<open>Infinity True\<close> is the
  negative one), or \<open>Decimal('NaN')\<close>.
\<close>

datatype pvalue = Num decimal | Str string | Infinity bool | NaN

text \<open>A raw value: an \<open>int\<close>, a finite \<open>Decimal\<close>, a Python \<open>float\<close> (given by
  the number it holds), or an infinite \<open>Decimal\<close>.\<close>

datatype raw_value = RawInt int | RawDec decimal | RawFloat rat | RawInfinity bool

text \<open>A record written by \<open>logger.info\<close> in \<open>phys2raw\<close>: the value, the name
  of the signal, and its limits.\<close>

datatype log_record = NotValid pvalue string decimal decimal

text \<open>The \<open>for\<close> ... \<open>else\<close> loop over \<open>self.values.items()\<close>: the key of the
  first entry whose string is the given one.\<close>

fun value_choice :: "(int \<times> string) list \<Rightarrow> string \<Rightarrow> int option" where
  "value_choice [] v = None"
| "value_choice ((value_key, value_string) # rest) v =
     (if value_string = v then Some value_key else value_choice rest v)"

text \<open>
  The part of \<open>phys2raw\<close> after the substitution of a name, for a finite number:
  the comparison with the limits, which only logs, and \<open>(value - offset) / factor\<close>
  in the decimal context, converted by \<open>int()\<close> unless the signal is a float signal.
\<close>

definition phys2raw_number :: "signal \<Rightarrow> decimal \<Rightarrow> (error + raw_value) \<times> log_record list" where
  "phys2raw_number s d =
     (let logged = (if \<not> (min_sig s \<le> d \<and> d \<le> max_sig s)
                    then [NotValid (Num d) (name s) (min_sig s) (max_sig s)] else [])
      in case dec_sub d (offset s) of
           Inl e \<Rightarrow> (Inl e, logged)
         | Inr difference \<Rightarrow>
             (case dec_div difference (factor s) of
                Inl e \<Rightarrow> (Inl e, logged)
              | Inr raw \<Rightarrow>
                  (Inr (if is_float s then RawDec raw else RawInt (int_of_decimal raw)),
                   logged)))"

text \<open>
  \<open>Signal.phys2raw\<close>, with the records it logs. A name of the value table is
  replaced by its key, an integer. An infinite value is outside the limits, stays
  infinite under the subtraction and the division, and \<open>int()\<close> raises
  \<open>OverflowError\<close> on it. The comparison of the limits with \<open>NaN\<close> raises
  \<open>InvalidOperation\<close>.
\<close>

definition phys2raw :: "signal \<Rightarrow> pvalue option \<Rightarrow> (error + raw_value) \<times> log_record list" where
  "phys2raw s v =
     (case v of
        None \<Rightarrow>
          (case attributes s ''GenSigStartValue'' of
             None \<Rightarrow> (Inr (RawInt 0), [])
           | Some (IntLike n) \<Rightarrow> (Inr (RawInt n), [])
           | Some (IntRaises e) \<Rightarrow> (Inl e, []))
      | Some (Str nm) \<Rightarrow>
          (case value_choice (values_tbl s) nm of
             None \<Rightarrow> (Inl ValueError, [])
           | Some value_key \<Rightarrow> phys2raw_number s (of_int value_key))
      | Some (Num d) \<Rightarrow> phys2raw_number s d
      | Some (Infinity neg) \<Rightarrow>
          (if is_float s then Inr (RawInfinity (neg \<noteq> (factor s < 0)))
           else Inl OverflowError,
           [NotValid (Infinity neg) (name s) (min_sig s) (max_sig s)])
      | Some NaN \<Rightarrow> (Inl InvalidOperation, []))"

text \<open>The loop of \<open>raw2phys\<close> over the value table: the string of the first entry
  whose key equals the physical value.\<close>

fun value_name :: "(int \<times> string) list \<Rightarrow> decimal \<Rightarrow> string option" where
  "value_name [] p = None"
| "value_name ((value_key, value_string) # rest) p =
     (if of_int value_key = p then Some value_string else value_name rest p)"

text \<open>The part of \<open>raw2phys\<close> after the conversion of the raw value, for a
  finite number: \<open>value * factor + offset\<close> in the decimal context, and the search
  of the value table.\<close>

definition raw2phys_number :: "signal \<Rightarrow> decimal \<Rightarrow> bool \<Rightarrow> error + pvalue" where
  "raw2phys_number s d decodeToStr =
     (case dec_mul d (factor s) of
        Inl e \<Rightarrow> Inl e
      | Inr product \<Rightarrow>
          (case dec_add product (offset s) of
             Inl e \<Rightarrow> Inl e
           | Inr p \<Rightarrow>
               Inr (if decodeToStr
                    then (case value_name (values_tbl s) p of
                            Some value_string \<Rightarrow> Str value_string
                          | None \<Rightarrow> Num p)
                    else Num p)))"

text \<open>
  \<open>Signal.raw2phys\<close>. A Python \<open>float\<close> is converted exactly by
  \<open>Decimal(value)\<close> when the signal is a float signal; otherwise the product of a
  \<open>float\<close> and a \<open>Decimal\<close> raises \<open>TypeError\<close>. The product of an infinite
  \<open>Decimal\<close> and zero raises \<open>InvalidOperation\<close>; any other product of it, and the
  sum with the offset, is infinite and equals no key of the value table.
\<close>

definition raw2phys :: "signal \<Rightarrow> raw_value \<Rightarrow> bool \<Rightarrow> error + pvalue" where
  "raw2phys s v decodeToStr =
     (case v of
        RawInt n \<Rightarrow> raw2phys_number s (of_int n) decodeToStr
      | RawDec d \<Rightarrow> raw2phys_number s d decodeToStr
      | RawFloat x \<Rightarrow>
          (if is_float s then raw2phys_number s x decodeToStr else Inl TypeError)
      | RawInfinity neg \<Rightarrow>
          (if factor s = 0 then Inl InvalidOperation
           else Inr (Infinity (neg \<noteq> (factor s < 0)))))"

text \<open>\<open>phys2raw(raw2phys(raw))\<close> for a raw integer; the records logged by
  \<open>phys2raw\<close> are left out.\<close>

definition roundtrip :: "signal \<Rightarrow> int \<Rightarrow> error + raw_value" where
  "roundtrip s raw =
     (case raw2phys s (RawInt raw) False of
        Inl e \<Rightarrow> Inl e
      | Inr p \<Rightarrow> fst (phys2raw s (Some p)))"

section \<open>Frame\<close>

text \<open>The fields of class \<open>Frame\<close> read by the codec, the length computation and
  the J1939 identifier.\<close>

record frame =
  frame_name :: string
  frame_id :: int
  frame_size :: int
  extended :: bool
  is_complex_multiplexed :: bool
  signals :: "signal list"
  j1939_pgn :: "int option"
  j1939_source :: int
  j1939_prio :: int
  is_j1939 :: bool

text \<open>\<open>Frame.is_multiplexed\<close>.\<close>

fun is_multiplexed_loop :: "signal list \<Rightarrow> bool" where
  "is_multiplexed_loop [] = False"
| "is_multiplexed_loop (sig # rest) = (if is_multiplexer sig then True else is_multiplexed_loop rest)"

definition is_multiplexed :: "frame \<Rightarrow> bool" where
  "is_multiplexed f = is_multiplexed_loop (signals f)"

subsection \<open>Length\<close>

text \<open>The loop of \<open>calcDLC\<close> and of \<open>recalcDLC\<close> that computes \<open>maxBit\<close>.\<close>

fun maxBit_loop :: "int \<Rightarrow> signal list \<Rightarrow> int" where
  "maxBit_loop maxBit [] = maxBit"
| "maxBit_loop maxBit (sig # rest) =
     maxBit_loop (if getStartbit sig None None + size_sig sig > maxBit
                  then getStartbit sig None None + size_sig sig else maxBit) rest"

text \<open>\<open>math.ceil(maxBit / 8)\<close>: the true division gives a \<open>float\<close>, the nearest
  one to the quotient, and \<open>math.ceil\<close> gives the least integer at or above it.\<close>

definition ceil_div8 :: "int \<Rightarrow> error + int" where
  "ceil_div8 maxBit =
     (case float_result (of_int maxBit / 8) of
        Inl e \<Rightarrow> Inl e
      | Inr q \<Rightarrow> Inr \<lceil>q\<rceil>)"

text \<open>\<open>Frame.calcDLC\<close>.\<close>

definition calcDLC :: "frame \<Rightarrow> error + frame" where
  "calcDLC f =
     (case ceil_div8 (maxBit_loop 0 (signals f)) of
        Inl e \<Rightarrow> Inl e
      | Inr n \<Rightarrow> Inr (f\<lparr>frame_size := max (frame_size f) n\<rparr>))"

record canmatrix =
  frames :: "frame list"

text \<open>The body of the loop of \<open>CanMatrix.recalcDLC\<close> for one frame.\<close>

definition recalcDLC_frame :: "string \<Rightarrow> frame \<Rightarrow> error + frame" where
  "recalcDLC_frame strategy f =
     (case (if ''max'' = strategy then calcDLC f else Inr f) of
        Inl e \<Rightarrow> Inl e
      | Inr f1 \<Rightarrow>
          (if ''force'' = strategy
           then (case ceil_div8 (maxBit_loop 0 (signals f1)) of
                   Inl e \<Rightarrow> Inl e
                 | Inr n \<Rightarrow> Inr (f1\<lparr>frame_size := n\<rparr>))
           else Inr f1))"

text \<open>The loop of \<open>CanMatrix.recalcDLC\<close> over the frames: an exception ends it and
  leaves the frames not yet reached as they were.\<close>

fun recalcDLC_loop :: "string \<Rightarrow> frame list \<Rightarrow> (error + unit) \<times> frame list" where
  "recalcDLC_loop strategy [] = (Inr (), [])"
| "recalcDLC_loop strategy (f # rest) =
     (case recalcDLC_frame strategy f of
        Inl e \<Rightarrow> (Inl e, f # rest)
      | Inr f1 \<Rightarrow>
          (case recalcDLC_loop strategy rest of
             (outcome, rest1) \<Rightarrow> (outcome, f1 # rest1)))"

text \<open>\<open>CanMatrix.recalcDLC\<close>.\<close>

definition recalcDLC :: "canmatrix \<Rightarrow> string \<Rightarrow> (error + unit) \<times> canmatrix" where
  "recalcDLC db strategy =
     (case recalcDLC_loop strategy (frames db) of
        (outcome, fs) \<Rightarrow> (outcome, db\<lparr>frames := fs\<rparr>))"

text \<open>The least number of bytes that holds every signal of a frame, as a number:
  \<open>ceil(maxBit / 8)\<close> for the greatest \<open>getStartbit() + size\<close> of its signals, and
  0 when no signal ends above bit 0.\<close>

definition minimal_size :: "frame \<Rightarrow> int" where
  "minimal_size f =
     \<lceil>(of_int (Max (insert 0 ((\<lambda>s. getStartbit s None None + size_sig s) ` set (signals f))))
        :: rat) / 8\<rceil>"

text \<open>Every signal of the frame ends at or below the given bit.\<close>

definition ends_within :: "int \<Rightarrow> frame \<Rightarrow> bool" where
  "ends_within bound f \<longleftrightarrow>
     list_all (\<lambda>s. getStartbit s None None + size_sig s \<le> bound) (signals f)"

subsection \<open>J1939 identifier\<close>

text \<open>\<open>Frame.recalcJ1939Id\<close>; \<open>j1939_pgn\<close> is \<open>None\<close> until it is set, and
  \<open>None & 0xffff\<close> raises \<open>TypeError\<close>.\<close>

definition recalcJ1939Id :: "frame \<Rightarrow> error + frame" where
  "recalcJ1939Id f =
     (case j1939_pgn f of
        None \<Rightarrow> Inl TypeError
      | Some p \<Rightarrow>
          Inr (f\<lparr>frame_id := (j1939_source f AND 255) + push_bit 8 (p AND 65535)
                               + push_bit 26 (j1939_prio f AND 7),
                 extended := True, is_j1939 := True\<rparr>))"

text \<open>Class \<open>CanId\<close>: the three class attributes are \<open>None\<close> unless the
  identifier is extended.\<close>

record can_id =
  source :: "int option"
  destination :: "int option"
  pgn :: "int option"

definition CanId :: "int \<Rightarrow> bool \<Rightarrow> can_id" where
  "CanId ident ext =
     (if ext
      then \<lparr>source = Some (ident AND 255),
            destination = Some (drop_bit (8 * 3) ident AND 255),
            pgn = Some (drop_bit 8 ident AND 65535)\<rparr>
      else \<lparr>source = None, destination = None, pgn = None\<rparr>)"

text \<open>\<open>CanId.tuples\<close>.\<close>

definition tuples :: "can_id \<Rightarrow> int option \<times> int option \<times> int option" where
  "tuples c = (destination c, pgn c, source c)"

subsection \<open>Format of the packed payload\<close>

text \<open>
  One piece of the format: \<open>'p' + str(n)\<close>, or the text of
  \<open>Signal.bitstruct_format\<close>, which is the byte order (\<open>'<'\<close> for little endian),
  the type letter and \<open>str(size)\<close>. The format string is the concatenation of the
  pieces.
\<close>

datatype bit_type = TypeF | TypeS | TypeU

datatype fmt_piece = Padding int | Field bool bit_type int

text \<open>\<open>Signal.bitstruct_format\<close>.\<close>

definition signal_bitstruct_format :: "signal \<Rightarrow> fmt_piece" where
  "signal_bitstruct_format s =
     Field (is_little_endian s)
       (if is_float s then TypeF else if is_signed s then TypeS else TypeU)
       (size_sig s)"

text \<open>\<open>sorted(..., key=lambda s: s.getStartbit())\<close>, a stable sort.\<close>

definition sorted_by_startbit :: "signal list \<Rightarrow> signal list" where
  "sorted_by_startbit sigs = sort_key (\<lambda>s. getStartbit s None None) sigs"

text \<open>The loop of \<open>Frame.bitstruct_format\<close>: the pieces appended for the given
  signals and the final value of \<open>end\<close>.\<close>

fun format_loop :: "int \<Rightarrow> int \<Rightarrow> signal list \<Rightarrow> fmt_piece list \<times> int" where
  "format_loop frame_bits end_bit [] = ([], end_bit)"
| "format_loop frame_bits end_bit (sig # rest) =
     (let start = frame_bits - getStartbit sig None None - size_sig sig;
          padding = end_bit - (start + size_sig sig);
          (fmt, e) = format_loop frame_bits start rest
      in ((if padding > 0 then [Padding padding] else [])
            @ signal_bitstruct_format sig # fmt, e))"

text \<open>\<open>Frame.bitstruct_format\<close>.\<close>

definition bitstruct_format :: "frame \<Rightarrow> signal list option \<Rightarrow> fmt_piece list" where
  "bitstruct_format f signalsToDecode =
     (let frame_bits = frame_size f * 8;
          sigs = (case signalsToDecode of
                    None \<Rightarrow> sorted_by_startbit (signals f)
                  | Some given \<Rightarrow> sorted_by_startbit given);
          (fmt, e) = format_loop frame_bits frame_bits sigs
      in fmt @ (if e \<noteq> 0 then [Padding e] else []))"

text \<open>The number of bits a format describes (\<open>bitstruct.calcsize\<close>): the sum of the
  numbers of its pieces.\<close>

fun piece_width :: "fmt_piece \<Rightarrow> int" where
  "piece_width (Padding n) = n"
| "piece_width (Field le t n) = n"

definition calcsize :: "fmt_piece list \<Rightarrow> int" where
  "calcsize fmt = sum_list (map piece_width fmt)"

subsection \<open>Packing and unpacking\<close>

text \<open>
  Modelled from the spec: the functions \<open>pack\<close> and \<open>unpack\<close> of the module
  \<open>bitstruct\<close>, which the repository imports but does not contain. The spec has the
  fields laid out in the order of the format, padding that is always zero, and a payload
  numbered from its most significant bit; the rest follows the documentation of the
  module: each field has its most significant bit first, the bits of a field with byte
  order \<open>'<'\<close> are reversed, signed integers are in two's complement, and the result of
  \<open>pack\<close> is filled with zero bits up to a whole number of bytes. A format with a
  width that is not positive is rejected, as is a value outside the range of its field
  and data shorter than the format. Fields of type \<open>'f'\<close> (IEEE 754) are outside this
  model: they give the error \<open>FloatField\<close>.
\<close>

definition int_bits :: "nat \<Rightarrow> int \<Rightarrow> bool list" where
  "int_bits n v = rev (map (bit v) [0..<n])"

definition bits_value :: "bool list \<Rightarrow> int" where
  "bits_value bits = foldl (\<lambda>a b. 2 * a + (if b then 1 else 0)) 0 bits"

definition signed_bits_value :: "bool list \<Rightarrow> int" where
  "signed_bits_value bits =
     (case bits of
        [] \<Rightarrow> 0
      | b # rest \<Rightarrow> if b then bits_value bits - 2 ^ length bits else bits_value bits)"

definition field_bits :: "bool \<Rightarrow> bit_type \<Rightarrow> int \<Rightarrow> raw_value \<Rightarrow> error + bool list" where
  "field_bits le t n v =
     (if n \<le> 0 then Inl BitstructError
      else case t of
        TypeF \<Rightarrow> Inl FloatField
      | TypeU \<Rightarrow>
          (case v of
             RawInt k \<Rightarrow>
               if 0 \<le> k \<and> k < 2 ^ nat n
               then Inr (if le then rev (int_bits (nat n) k) else int_bits (nat n) k)
               else Inl BitstructError
           | RawDec d \<Rightarrow> Inl BitstructError
           | RawFloat x \<Rightarrow> Inl BitstructError
           | RawInfinity neg \<Rightarrow> Inl BitstructError)
      | TypeS \<Rightarrow>
          (case v of
             RawInt k \<Rightarrow>
               if - (2 ^ (nat n - 1)) \<le> k \<and> k < 2 ^ (nat n - 1)
               then Inr (if le then rev (int_bits (nat n) k) else int_bits (nat n) k)
               else Inl BitstructError
           | RawDec d \<Rightarrow> Inl BitstructError
           | RawFloat x \<Rightarrow> Inl BitstructError
           | RawInfinity neg \<Rightarrow> Inl BitstructError))"

fun pack_pieces :: "fmt_piece list \<Rightarrow> raw_value list \<Rightarrow> error + bool list" where
  "pack_pieces [] args = Inr []"
| "pack_pieces (Padding n # fmt) args =
     (if n \<le> 0 then Inl BitstructError
      else case pack_pieces fmt args of
             Inl e \<Rightarrow> Inl e
           | Inr bits \<Rightarrow> Inr (replicate (nat n) False @ bits))"
| "pack_pieces (Field le t n # fmt) [] = Inl BitstructError"
| "pack_pieces (Field le t n # fmt) (v # args) =
     (case field_bits le t n v of
        Inl e \<Rightarrow> Inl e
      | Inr fb \<Rightarrow>
          (case pack_pieces fmt args of
             Inl e \<Rightarrow> Inl e
           | Inr bits \<Rightarrow> Inr (fb @ bits)))"

text \<open>Bytes are numbers from 0 to 255.\<close>

definition bytes_of_bits :: "bool list \<Rightarrow> nat list" where
  "bytes_of_bits bits =
     (let padded = bits @ replicate ((8 - length bits mod 8) mod 8) False
      in map (\<lambda>i. nat (bits_value (take 8 (drop (8 * i) padded))))
           [0..<length padded div 8])"

definition bits_of_bytes :: "nat list \<Rightarrow> bool list" where
  "bits_of_bytes data = concat (map (\<lambda>b. int_bits 8 (int b)) data)"

definition pack :: "fmt_piece list \<Rightarrow> raw_value list \<Rightarrow> error + nat list" where
  "pack fmt args =
     (case pack_pieces fmt args of
        Inl e \<Rightarrow> Inl e
      | Inr bits \<Rightarrow> Inr (bytes_of_bits bits))"

fun unpack_pieces :: "fmt_piece list \<Rightarrow> bool list \<Rightarrow> error + raw_value list" where
  "unpack_pieces [] bits = Inr []"
| "unpack_pieces (Padding n # fmt) bits =
     (if n \<le> 0 \<or> length bits < nat n then Inl BitstructError
      else unpack_pieces fmt (drop (nat n) bits))"
| "unpack_pieces (Field le t n # fmt) bits =
     (if n \<le> 0 \<or> length bits < nat n then Inl BitstructError
      else if t = TypeF then Inl FloatField
      else (let fb = (if le then rev (take (nat n) bits) else take (nat n) bits);
                v = (if t = TypeS then signed_bits_value fb else bits_value fb)
            in case unpack_pieces fmt (drop (nat n) bits) of
                 Inl e \<Rightarrow> Inl e
               | Inr vs \<Rightarrow> Inr (RawInt v # vs)))"

definition unpack :: "fmt_piece list \<Rightarrow> nat list \<Rightarrow> error + raw_value list" where
  "unpack fmt data = unpack_pieces fmt (bits_of_bytes data)"

subsection \<open>Encoding\<close>

text \<open>The dictionary \<open>data\<close> of \<open>encode\<close>; \<open>data.get(name)\<close> is the application.\<close>

type_synonym data = "string \<rightharpoonup> pvalue"

text \<open>\<open>signal.mux_val == muxVal\<close> in \<open>encode\<close>, where \<open>muxVal\<close> is
  \<open>data.get(...)\<close>: \<open>None\<close>, a number or a string; an integer equals neither
  \<open>Infinity\<close> nor \<open>NaN\<close>.\<close>

definition mux_val_is_given :: "int option \<Rightarrow> pvalue option \<Rightarrow> bool" where
  "mux_val_is_given mv given =
     (case mv of
        None \<Rightarrow> given = None
      | Some k \<Rightarrow> (case given of
                    None \<Rightarrow> False
                  | Some (Num d) \<Rightarrow> of_int k = d
                  | Some (Str nm) \<Rightarrow> False
                  | Some (Infinity neg) \<Rightarrow> False
                  | Some NaN \<Rightarrow> False))"

text \<open>The first loop of \<open>encode\<close>: the last multiplexer signal and its value in
  \<open>data\<close> (\<open>None\<close> as long as \<open>muxVal\<close> is not bound).\<close>

fun search_multiplexer ::
  "(signal \<times> pvalue option) option \<Rightarrow> signal list \<Rightarrow> data \<Rightarrow> (signal \<times> pvalue option) option"
  where
  "search_multiplexer found [] data = found"
| "search_multiplexer found (sig # rest) data =
     search_multiplexer (if is_multiplexer sig then Some (sig, data (name sig)) else found)
       rest data"

text \<open>The last loop of \<open>encode\<close>: \<open>phys2raw\<close> of every signal, up to the first
  exception, with the records logged.\<close>

fun signal_values ::
  "signal list \<Rightarrow> data \<Rightarrow> (error + raw_value list) \<times> log_record list" where
  "signal_values [] data = (Inr [], [])"
| "signal_values (sig # rest) data =
     (case phys2raw sig (data (name sig)) of
        (Inl e, logged) \<Rightarrow> (Inl e, logged)
      | (Inr v, logged) \<Rightarrow>
          (case signal_values rest data of
             (Inl e, logged2) \<Rightarrow> (Inl e, logged @ logged2)
           | (Inr vs, logged2) \<Rightarrow> (Inr (v # vs), logged @ logged2)))"

definition pack_signals ::
  "fmt_piece list \<Rightarrow> signal list \<Rightarrow> data \<Rightarrow> (error + nat list) \<times> log_record list" where
  "pack_signals fmt sigs data =
     (case signal_values sigs data of
        (Inl e, logged) \<Rightarrow> (Inl e, logged)
      | (Inr signal_value, logged) \<Rightarrow> (pack fmt signal_value, logged))"

text \<open>\<open>Frame.encode\<close>. For a complex multiplexed frame neither \<open>fmt\<close> nor
  \<open>signals\<close> is bound when the last loop starts.\<close>

definition encode :: "frame \<Rightarrow> data \<Rightarrow> (error + nat list) \<times> log_record list" where
  "encode f data =
     (if is_complex_multiplexed f then (Inl UnboundLocalError, [])
      else if is_multiplexed f then
        (case search_multiplexer None (signals f) data of
           None \<Rightarrow> (Inl UnboundLocalError, [])
         | Some (muxSignal, muxVal) \<Rightarrow>
             (let encodeSignals =
                    muxSignal # filter (\<lambda>sig. mux_val_is_given (mux_val sig) muxVal
                                             \<or> mux_val sig = None) (signals f)
              in pack_signals (bitstruct_format f (Some encodeSignals))
                   (sorted_by_startbit encodeSignals) data))
      else pack_signals (bitstruct_format f None) (sorted_by_startbit (signals f)) data)"

subsection \<open>Decoding\<close>

text \<open>\<open>signals_values[name] = value\<close> on an \<open>OrderedDict\<close>: a present key keeps
  its place.\<close>

fun od_set :: "string \<Rightarrow> pvalue \<Rightarrow> (string \<times> pvalue) list \<Rightarrow> (string \<times> pvalue) list" where
  "od_set k v [] = [(k, v)]"
| "od_set k v ((k', v') # rest) = (if k' = k then (k, v) # rest else (k', v') # od_set k v rest)"

text \<open>The loop over \<open>zip(signals, bitstruct.unpack(fmt, data))\<close>.\<close>

fun collect_values ::
  "signal list \<Rightarrow> raw_value list \<Rightarrow> bool \<Rightarrow> (string \<times> pvalue) list
   \<Rightarrow> error + (string \<times> pvalue) list" where
  "collect_values (sig # sigs) (v # vs) decodeToStr acc =
     (case raw2phys sig v decodeToStr of
        Inl e \<Rightarrow> Inl e
      | Inr p \<Rightarrow> collect_values sigs vs decodeToStr (od_set (name sig) p acc))"
| "collect_values sigs vs decodeToStr acc = Inr acc"

text \<open>
  \<open>int(text)\<close> for a text of characters with code points below 256: white space
  around it is dropped, then comes an optional sign, then decimal digits, where single
  underscores may stand between digits. A text of more than 4300 digits is refused
  (the limit of Python 3.11 for this conversion).
\<close>

definition is_space :: "char \<Rightarrow> bool" where
  "is_space c = (let n = (of_char c :: nat) in (9 \<le> n \<and> n \<le> 13) \<or> n = 32 \<or> n = 133 \<or> n = 160)"

definition is_digit :: "char \<Rightarrow> bool" where
  "is_digit c = (let n = (of_char c :: nat) in 48 \<le> n \<and> n \<le> 57)"

fun int_of_digits :: "int \<Rightarrow> bool \<Rightarrow> string \<Rightarrow> int option" where
  "int_of_digits acc after_digit [] = (if after_digit then Some acc else None)"
| "int_of_digits acc after_digit (c # cs) =
     (if is_digit c then int_of_digits (10 * acc + (int (of_char c) - 48)) True cs
      else if c = CHR ''_'' \<and> after_digit then int_of_digits acc False cs
      else None)"

definition int_of_string :: "string \<Rightarrow> int option" where
  "int_of_string text =
     (case rev (dropWhile is_space (rev (dropWhile is_space text))) of
        [] \<Rightarrow> None
      | c # cs \<Rightarrow>
          if 4300 < length (filter is_digit (c # cs)) then None
          else if c = CHR ''-'' then map_option uminus (int_of_digits 0 False cs)
          else if c = CHR ''+'' then int_of_digits 0 False cs
          else int_of_digits 0 False (c # cs))"

text \<open>\<open>int(...)\<close> of a decoded value: a finite Decimal is truncated; a name of the
  value table is converted as a text; \<open>Infinity\<close> raises \<open>OverflowError\<close> and
  \<open>NaN\<close> raises \<open>ValueError\<close>.\<close>

definition int_of_pvalue :: "pvalue \<Rightarrow> error + int" where
  "int_of_pvalue p =
     (case p of
        Num d \<Rightarrow> Inr (int_of_decimal d)
      | Str nm \<Rightarrow> (case int_of_string nm of None \<Rightarrow> Inl ValueError | Some n \<Rightarrow> Inr n)
      | Infinity neg \<Rightarrow> Inl OverflowError
      | NaN \<Rightarrow> Inl ValueError)"

text \<open>
  The first loop of \<open>decode\<close>, over all signals of the frame. For a multiplexer signal
  the format of that signal alone is unpacked and the values are paired with all signals
  of the frame in sorted order; then, for every signal, \<open>muxVal\<close> is read from the first
  entry of \<open>signals_values\<close>, which is not bound before the first multiplexer signal.
\<close>

fun multiplexer_value ::
  "frame \<Rightarrow> nat list \<Rightarrow> bool \<Rightarrow> signal list \<Rightarrow> (string \<times> pvalue) list option \<Rightarrow> int option
   \<Rightarrow> error + int option" where
  "multiplexer_value f data decodeToStr [] signals_values muxVal = Inr muxVal"
| "multiplexer_value f data decodeToStr (sig # rest) signals_values muxVal =
     (case (if is_multiplexer sig
            then (case unpack (bitstruct_format f (Some [sig])) data of
                    Inl e \<Rightarrow> Inl e
                  | Inr vs \<Rightarrow>
                      (case collect_values (sorted_by_startbit (signals f)) vs decodeToStr [] of
                         Inl e \<Rightarrow> Inl e
                       | Inr d \<Rightarrow> Inr (Some d)))
            else Inr signals_values) of
        Inl e \<Rightarrow> Inl e
      | Inr None \<Rightarrow> Inl UnboundLocalError
      | Inr (Some []) \<Rightarrow> Inl IndexError
      | Inr (Some ((k, p) # d)) \<Rightarrow>
          (case int_of_pvalue p of
             Inl e \<Rightarrow> Inl e
           | Inr m \<Rightarrow>
               multiplexer_value f data decodeToStr rest (Some ((k, p) # d)) (Some m)))"

definition unpack_signals ::
  "fmt_piece list \<Rightarrow> signal list \<Rightarrow> nat list \<Rightarrow> bool \<Rightarrow> error + (string \<times> pvalue) list" where
  "unpack_signals fmt sigs data decodeToStr =
     (case unpack fmt data of
        Inl e \<Rightarrow> Inl e
      | Inr vs \<Rightarrow> collect_values sigs vs decodeToStr [])"

text \<open>\<open>Frame.decode\<close>.\<close>

definition decode :: "frame \<Rightarrow> nat list \<Rightarrow> bool \<Rightarrow> error + (string \<times> pvalue) list" where
  "decode f data decodeToStr =
     (if is_complex_multiplexed f then Inl UnboundLocalError
      else if is_multiplexed f then
        (case multiplexer_value f data decodeToStr (signals f) None None of
           Inl e \<Rightarrow> Inl e
         | Inr None \<Rightarrow> Inl UnboundLocalError
         | Inr (Some muxVal) \<Rightarrow>
             (let muxedSignals =
                    filter (\<lambda>sig. mux_val sig = Some muxVal \<or> mux_val sig = None) (signals f)
              in unpack_signals (bitstruct_format f (Some muxedSignals))
                   (sorted_by_startbit muxedSignals) data decodeToStr))
      else unpack_signals (bitstruct_format f None) (sorted_by_startbit (signals f))
             data decodeToStr)"

text \<open>\<open>decode(encode(data))\<close>.\<close>

definition decode_encode :: "frame \<Rightarrow> data \<Rightarrow> error + (string \<times> pvalue) list" where
  "decode_encode f data =
     (case fst (encode f data) of
        Inl e \<Rightarrow> Inl e
      | Inr payload \<Rightarrow> decode f payload False)"

subsection \<open>Bit fields of signals\<close>

text \<open>\<open>s.getStartbit()\<close> without arguments, the sort key of
  \<open>bitstruct_format\<close>.\<close>

abbreviation start_of :: "signal \<Rightarrow> int" where
  "start_of s \<equiv> getStartbit s None None"

text \<open>The bits a signal occupies, counted as \<open>bitstruct_format\<close> counts them: from
  \<open>getStartbit()\<close>, \<open>size\<close> bits upwards.\<close>

definition bit_field :: "signal \<Rightarrow> int set" where
  "bit_field s = {getStartbit s None None ..< getStartbit s None None + size_sig s}"

text \<open>Two signals share no bit.\<close>

definition disjoint_fields :: "signal \<Rightarrow> signal \<Rightarrow> bool" where
  "disjoint_fields s t \<longleftrightarrow> bit_field s \<inter> bit_field t = {}"

text \<open>The bit fields of the signals of a list are pairwise disjoint.\<close>

fun non_overlapping :: "signal list \<Rightarrow> bool" where
  "non_overlapping [] = True"
| "non_overlapping (s # rest) =
     ((\<forall>t \<in> set rest. disjoint_fields s t) \<and> non_overlapping rest)"

text \<open>The bit field of a signal lies within the payload of the frame.\<close>

definition fits_payload :: "frame \<Rightarrow> signal \<Rightarrow> bool" where
  "fits_payload f s \<longleftrightarrow>
     0 \<le> getStartbit s None None \<and> getStartbit s None None + size_sig s \<le> frame_size f * 8"

text \<open>The signals \<open>bitstruct_format\<close> works on: the given ones, or all signals of the
  frame.\<close>

definition format_signals :: "frame \<Rightarrow> signal list option \<Rightarrow> signal list" where
  "format_signals f signalsToDecode =
     (case signalsToDecode of None \<Rightarrow> signals f | Some given \<Rightarrow> given)"

text \<open>Signals in ascending order without gaps below zero: the first starts at or after
  \<open>lo\<close>, each next one at or after the end of the one before, and the last ends at or
  before \<open>hi\<close>.\<close>

fun in_sequence :: "int \<Rightarrow> signal list \<Rightarrow> int \<Rightarrow> bool" where
  "in_sequence lo [] hi = (lo \<le> hi)"
| "in_sequence lo (s # rest) hi =
     (lo \<le> getStartbit s None None
      \<and> in_sequence (getStartbit s None None + size_sig s) rest hi)"

section \<open>Example frames\<close>

text \<open>
  The signals of the examples are given with their limits; but for the last one, these
  are the limits the constructor computes when \<open>min\<close> and \<open>max\<close> are left out.
\<close>

text \<open>A frame of one byte with a single signal built with the defaults of the class,
  \<open>Frame(size=1, signals=[Signal(name='S', startBit=0, size=8)])\<close>.\<close>

definition plain_frame :: frame where
  "plain_frame =
     \<lparr>frame_name = ''F'', frame_id = 1, frame_size = 1, extended = False,
      is_complex_multiplexed = False,
      signals = [Signal_init ''S'' 0 8 True True MuxNone 0 1 (- 128) 127],
      j1939_pgn = None, j1939_source = 0, j1939_prio = 0, is_j1939 = False\<rparr>"

text \<open>A frame of eight bytes whose only signal ends at bit 8.\<close>

definition long_frame :: frame where
  "long_frame = plain_frame\<lparr>frame_size := 8\<rparr>"

text \<open>A frame whose only signal is the bit \<open>2\<^sup>5\<^sup>3\<close>,
  \<open>Frame(signals=[Signal(name='X', startBit=2**53, size=1)])\<close>.\<close>

definition far_frame :: frame where
  "far_frame =
     plain_frame\<lparr>frame_size := 0,
       signals := [Signal_init ''X'' (2 ^ 53) 1 True True MuxNone 0 1 (- 1) 0]\<rparr>"

text \<open>A frame with the J1939 fields source \<open>0x12\<close>, PGN \<open>0xBEEF\<close>, priority 3.\<close>

definition j1939_frame :: frame where
  "j1939_frame =
     \<lparr>frame_name = ''J'', frame_id = 0, frame_size = 8, extended = False,
      is_complex_multiplexed = False, signals = [],
      j1939_pgn = Some 48879, j1939_source = 18, j1939_prio = 3, is_j1939 = False\<rparr>"

text \<open>\<open>Signal(name='S', startBit=0, size=8)\<close>, the signal of \<open>plain_frame\<close>.\<close>

definition plain_signal :: signal where
  "plain_signal = Signal_init ''S'' 0 8 True True MuxNone 0 1 (- 128) 127"

text \<open>A big endian signal of 12 bits stored at bit 7.\<close>

definition msb_signal :: signal where
  "msb_signal = Signal_init ''M'' 7 12 False False MuxNone 0 1 0 4095"

text \<open>\<open>Signal(name='T', size=8, offset=Decimal('0.25'), factor=Decimal('0.1'))\<close>.\<close>

definition tenth_signal :: signal where
  "tenth_signal = Signal_init ''T'' 0 8 True True MuxNone (1 / 4) (1 / 10) (- (251 / 20)) (259 / 20)"

text \<open>\<open>Signal(name='B', size=8, offset=Decimal('1E+30'))\<close>.\<close>

definition big_offset_signal :: signal where
  "big_offset_signal =
     Signal_init ''B'' 0 8 True True MuxNone (10 ^ 30) 1 999999999999999999999999999900 (10 ^ 30)"

text \<open>\<open>Signal(name='U', size=8, factor=Decimal('1E-1000030'))\<close>: its default limits
  underflow to zero.\<close>

definition underflow_signal :: signal where
  "underflow_signal = Signal_init ''U'' 0 8 True True MuxNone 0 (power_of 10 (- 1000030)) 0 0"

text \<open>\<open>Signal(name='P', size=8, factor=Decimal('1E-999999'))\<close>, and the number
  \<open>Decimal('1E+999999')\<close>.\<close>

definition tiny_factor_signal :: signal where
  "tiny_factor_signal =
     Signal_init ''P'' 0 8 True True MuxNone 0 (power_of 10 (- 999999))
       (- 128 * power_of 10 (- 999999)) (127 * power_of 10 (- 999999))"


text \<open>\<open>Signal(name='C', size=8, is_signed=False, values={0: 'Off', 1: 'On'})\<close>.\<close>

definition choice_signal :: signal where
  "choice_signal =
     (Signal_init ''C'' 0 8 True False MuxNone 0 1 0 255)\<lparr>values_tbl := [(0, ''Off''), (1, ''On'')]\<rparr>"

text \<open>A frame of one byte with a signal of four bits at bit 4 and a signal of width 0
  at the same bit,
  \<open>Frame(size=1, signals=[Signal('A', startBit=4, size=4), Signal('Z', startBit=4, size=0)])\<close>.\<close>

definition zero_width_frame :: frame where
  "zero_width_frame =
     \<lparr>frame_name = ''W'', frame_id = 2, frame_size = 1, extended = False,
      is_complex_multiplexed = False,
      signals = [Signal_init ''A'' 4 4 True True MuxNone 0 1 (- 8) 7,
                 Signal_init ''Z'' 4 0 True True MuxNone 0 1 (- (1 / 2)) (- (1 / 2))],
      j1939_pgn = None, j1939_source = 0, j1939_prio = 0, is_j1939 = False\<rparr>"

text \<open>A frame of two bytes with two signals: bits 2 to 5 and bits 8 to 13.\<close>

definition two_signal_frame :: frame where
  "two_signal_frame =
     \<lparr>frame_name = ''G'', frame_id = 3, frame_size = 2, extended = False,
      is_complex_multiplexed = False,
      signals = [Signal_init ''Hi'' 8 6 False False MuxNone 0 1 0 63,
                 Signal_init ''Lo'' 2 4 True True MuxNone 0 1 (- 8) 7],
      j1939_pgn = None, j1939_source = 0, j1939_prio = 0, is_j1939 = False\<rparr>"

text \<open>
  The frame of one byte with a multiplexor at bits 0 and 1, a signal \<open>A\<close> at bits 2
  to 5 for the multiplex value 0 and a signal \<open>B\<close> at bits 2 to 7 for the multiplex
  value 1; the signals are built with the defaults of the class (little endian, signed).
\<close>

definition mux_frame :: frame where
  "mux_frame =
     \<lparr>frame_name = ''M'', frame_id = 4, frame_size = 1, extended = False,
      is_complex_multiplexed = False,
      signals = [Signal_init ''mux'' 0 2 True True MuxMultiplexor 0 1 (- 2) 1,
                 Signal_init ''A'' 2 4 True True (MuxNumber 0) 0 1 (- 8) 7,
                 Signal_init ''B'' 2 6 True True (MuxNumber 1) 0 1 (- 32) 31],
      j1939_pgn = None, j1939_source = 0, j1939_prio = 0, is_j1939 = False\<rparr>"

text \<open>The same frame with big endian unsigned signals.\<close>

definition mux_frame_be :: frame where
  "mux_frame_be =
     mux_frame\<lparr>signals := [Signal_init ''mux'' 0 2 False False MuxMultiplexor 0 1 0 3,
                            Signal_init ''A'' 2 4 False False (MuxNumber 0) 0 1 0 15,
                            Signal_init ''B'' 2 6 False False (MuxNumber 1) 0 1 0 63]\<rparr>"

text \<open>\<open>{'mux': 0, 'A': 5}\<close> and \<open>{'mux': 1, 'B': 30}\<close>.\<close>

definition data_A :: data where
  "data_A = [''mux'' \<mapsto> Num 0, ''A'' \<mapsto> Num 5]"

definition data_B :: data where
  "data_B = [''mux'' \<mapsto> Num 1, ''B'' \<mapsto> Num 30]"

section \<open>Rounding: digits and exponents\<close>

lemma digits_bounds:
  "2 \<le> b \<Longrightarrow> 0 < n \<Longrightarrow> b ^ (digits b n - 1) \<le> n \<and> n < b ^ digits b n"
proof (induction b n rule: digits.induct)
  case (1 b n)
  show ?case
  proof (cases "n < b")
    case True
    then show ?thesis using "1.prems" by (simp add: digits.simps [of b n])
  next
    case False
    then have c: "\<not> (n < b \<or> b < 2)" using "1.prems" by simp
    have pos: "0 < n div b" using False "1.prems" by (simp add: pos_imp_zdiv_pos_iff)
    have ih: "b ^ (digits b (n div b) - 1) \<le> n div b \<and> n div b < b ^ digits b (n div b)"
      using "1.IH" [OF c "1.prems"(1) pos] .
    have nd: "digits b n = Suc (digits b (n div b))"
      using c by (simp add: digits.simps [of b n])
    have pos': "0 < digits b (n div b)"
      by (simp add: digits.simps [of b "n div b"])
    then obtain d where d: "digits b (n div b) = Suc d"
      by (cases "digits b (n div b)") simp_all
    have bpos: "0 < b" using "1.prems" by simp
    have eq: "n = b * (n div b) + n mod b" by simp
    have m: "0 \<le> n mod b" "n mod b < b" using bpos by simp_all
    have "b * b ^ d \<le> b * (n div b)"
      using ih d bpos by (simp add: mult_left_mono)
    with eq m have "b * b ^ d \<le> n" by linarith
    then have lo: "b ^ digits b (n div b) \<le> n" using d by simp
    have "b * (n div b + 1) \<le> b * b ^ digits b (n div b)"
      using ih bpos by (simp add: mult_left_mono)
    moreover have "b * (n div b + 1) = b * (n div b) + b" by (simp add: distrib_left)
    ultimately have hi: "n < b * b ^ digits b (n div b)" using eq m by linarith
    show ?thesis using lo hi nd by simp
  qed
qed


lemma power_of_powi: "power_of b e = of_int b powi e"
  by (simp add: power_of_def power_int_def power_one_over inverse_eq_divide)

lemma power_of_pos: "2 \<le> b \<Longrightarrow> 0 < power_of b e"
  by (simp add: power_of_powi)

lemma power_of_add: "2 \<le> b \<Longrightarrow> power_of b (e1 + e2) = power_of b e1 * power_of b e2"
  by (simp add: power_of_powi power_int_add)

lemma power_of_mono: "2 \<le> b \<Longrightarrow> e1 \<le> e2 \<Longrightarrow> power_of b e1 \<le> power_of b e2"
  by (simp add: power_of_powi power_int_increasing)

lemma power_of_nat: "power_of b (int k) = of_int b ^ k"
  by (simp add: power_of_def)

lemma power_of_neg: "power_of b (- int d) = 1 / of_int b ^ d"
  by (cases "d = 0") (simp_all add: power_of_def)

lemma power_of_less_cancel:
  assumes "2 \<le> b" and "power_of b e1 < power_of b e2"
  shows "e1 < e2"
proof (rule ccontr)
  assume "\<not> e1 < e2"
  then have "power_of b e2 \<le> power_of b e1" using assms(1) by (simp add: power_of_mono)
  with assms(2) show False by simp
qed

lemma adjusted_lower:
  assumes b: "2 \<le> b" and nz: "x \<noteq> 0"
  shows "power_of b (adjusted b x) \<le> \<bar>x\<bar>"
proof (cases "1 \<le> \<bar>x\<bar>")
  case True
  let ?n = "\<lfloor>\<bar>x\<bar>\<rfloor>"
  have n: "0 < ?n" using True by simp
  have "0 < digits b ?n" by (simp add: digits.simps [of b ?n])
  then obtain d where d: "digits b ?n = Suc d" by (cases "digits b ?n") simp_all
  have adj: "adjusted b x = int d" using True d by (simp add: adjusted_def)
  have "b ^ d \<le> ?n" using digits_bounds [OF b n] d by simp
  then have "(of_int (b ^ d) :: rat) \<le> of_int ?n"
    by (simp only: of_int_le_iff)
  moreover have "(of_int ?n :: rat) \<le> \<bar>x\<bar>" by (rule of_int_floor_le)
  ultimately have "(of_int (b ^ d) :: rat) \<le> \<bar>x\<bar>" by (rule order_trans)
  then have "(of_int b :: rat) ^ d \<le> \<bar>x\<bar>" by simp
  then show ?thesis by (simp only: adj power_of_nat)
next
  case False
  have ax: "0 < \<bar>x\<bar>" using nz by simp
  let ?c = "\<lceil>1 / \<bar>x\<bar>\<rceil>"
  define d where "d = digits b (?c - 1)"
  have adj: "adjusted b x = - int d" using False by (simp add: adjusted_def d_def)
  have "1 < 1 / \<bar>x\<bar>" using False ax by simp
  then have "1 < ?c" by (simp add: less_ceiling_iff)
  then have c: "0 < ?c - 1" by simp
  have "?c - 1 < b ^ d" using digits_bounds [OF b c] by (simp add: d_def)
  then have "?c \<le> b ^ d" by simp
  then have "(of_int ?c :: rat) \<le> of_int (b ^ d)"
    by (simp only: of_int_le_iff)
  moreover have "1 / \<bar>x\<bar> \<le> of_int ?c" by (rule le_of_int_ceiling)
  ultimately have "1 / \<bar>x\<bar> \<le> of_int (b ^ d)" by (rule order_trans [rotated])
  then have "1 / \<bar>x\<bar> \<le> of_int b ^ d" by simp
  then have "1 \<le> of_int b ^ d * \<bar>x\<bar>" using ax by (simp add: pos_divide_le_eq)
  moreover have "(0::rat) < of_int b ^ d" using b by simp
  ultimately have "1 / of_int b ^ d \<le> \<bar>x\<bar>" by (simp add: pos_divide_le_eq mult.commute)
  then show ?thesis by (simp only: adj power_of_neg)
qed

lemma adjusted_upper:
  assumes b: "2 \<le> b" and nz: "x \<noteq> 0"
  shows "\<bar>x\<bar> < power_of b (adjusted b x + 1)"
proof (cases "1 \<le> \<bar>x\<bar>")
  case True
  let ?n = "\<lfloor>\<bar>x\<bar>\<rfloor>"
  have n: "0 < ?n" using True by simp
  have "0 < digits b ?n" by (simp add: digits.simps [of b ?n])
  then have adj: "adjusted b x + 1 = int (digits b ?n)" using True by (simp add: adjusted_def)
  have "?n < b ^ digits b ?n" using digits_bounds [OF b n] by simp
  then have "?n + 1 \<le> b ^ digits b ?n" by simp
  then have "(of_int (?n + 1) :: rat) \<le> of_int (b ^ digits b ?n)"
    by (simp only: of_int_le_iff)
  moreover have "\<bar>x\<bar> < of_int (?n + 1)" by linarith
  ultimately have "\<bar>x\<bar> < of_int (b ^ digits b ?n)" by (rule less_le_trans [rotated])
  then have "\<bar>x\<bar> < of_int b ^ digits b ?n" by simp
  then show ?thesis by (simp only: adj power_of_nat)
next
  case False
  have ax: "0 < \<bar>x\<bar>" using nz by simp
  let ?c = "\<lceil>1 / \<bar>x\<bar>\<rceil>"
  define d where "d = digits b (?c - 1)"
  have "0 < d" by (simp add: d_def digits.simps [of b "?c - 1"])
  then obtain d' where d': "d = Suc d'" by (cases d) simp_all
  have adj: "adjusted b x + 1 = - int d'" using False by (simp add: adjusted_def d_def [symmetric] d')
  have "1 < 1 / \<bar>x\<bar>" using False ax by simp
  then have "1 < ?c" by (simp add: less_ceiling_iff)
  then have c: "0 < ?c - 1" by simp
  have "b ^ d' \<le> ?c - 1" using digits_bounds [OF b c] by (simp add: d_def [symmetric] d')
  then have "(of_int (b ^ d') :: rat) \<le> of_int (?c - 1)"
    by (simp only: of_int_le_iff)
  moreover have "of_int (?c - 1) < 1 / \<bar>x\<bar>" by linarith
  ultimately have "of_int (b ^ d') < 1 / \<bar>x\<bar>" by (rule le_less_trans)
  then have "of_int b ^ d' < 1 / \<bar>x\<bar>" by simp
  then have "of_int b ^ d' * \<bar>x\<bar> < 1" using ax by (simp add: pos_less_divide_eq)
  moreover have "(0::rat) < of_int b ^ d'" using b by simp
  ultimately have "\<bar>x\<bar> < 1 / of_int b ^ d'" by (simp add: pos_less_divide_eq mult.commute)
  then show ?thesis by (simp only: adj power_of_neg)
qed

lemma adjusted_unique:
  assumes b: "2 \<le> b" and lo: "power_of b a \<le> \<bar>x\<bar>" and hi: "\<bar>x\<bar> < power_of b (a + 1)"
  shows "adjusted b x = a"
proof -
  have nz: "x \<noteq> 0" using lo power_of_pos [OF b, of a] by auto
  have "power_of b (adjusted b x) < power_of b (a + 1)"
    using adjusted_lower [OF b nz] hi by (rule le_less_trans)
  then have 1: "adjusted b x < a + 1" by (rule power_of_less_cancel [OF b])
  have "power_of b a < power_of b (adjusted b x + 1)"
    using lo adjusted_upper [OF b nz] by (rule le_less_trans)
  then have 2: "a < adjusted b x + 1" by (rule power_of_less_cancel [OF b])
  from 1 2 show ?thesis by simp
qed

lemma round_half_even_of_int: "round_half_even (of_int z) = z"
  by (simp add: round_half_even_def)


lemma digits_le:
  assumes b: "2 \<le> b" and n: "0 < n" and lt: "n < b ^ p"
  shows "digits b n \<le> p"
proof (rule ccontr)
  assume "\<not> digits b n \<le> p"
  then have "p \<le> digits b n - 1" by simp
  then have "b ^ p \<le> b ^ (digits b n - 1)"
    using b by (simp add: power_increasing)
  also have "\<dots> \<le> n" using digits_bounds [OF b n] by simp
  finally show False using lt by simp
qed

lemma adjusted_coefficient:
  assumes b: "2 \<le> b" and c: "c \<noteq> 0"
  shows "adjusted b (of_int c * power_of b e) = int (digits b \<bar>c\<bar>) - 1 + e"
proof (rule adjusted_unique [OF b])
  have pos: "0 < \<bar>c\<bar>" using c by simp
  have pe: "0 < power_of b e" by (rule power_of_pos [OF b])
  have "0 < digits b \<bar>c\<bar>" by (simp add: digits.simps [of b "\<bar>c\<bar>"])
  then obtain d where d: "digits b \<bar>c\<bar> = Suc d" by (cases "digits b \<bar>c\<bar>") simp_all
  have bd: "b ^ d \<le> \<bar>c\<bar>" "\<bar>c\<bar> < b ^ Suc d"
    using digits_bounds [OF b pos] d by simp_all
  have ab: "\<bar>of_int c * power_of b e\<bar> = of_int \<bar>c\<bar> * power_of b e"
    using pe by (simp add: abs_mult)
  have "power_of b (int (digits b \<bar>c\<bar>) - 1 + e) = power_of b (int d + e)"
    using d by simp
  also have "\<dots> = of_int (b ^ d) * power_of b e"
    by (simp add: power_of_add [OF b] power_of_nat)
  also have "\<dots> \<le> of_int \<bar>c\<bar> * power_of b e"
    using bd(1) pe by (simp only: mult_le_cancel_right of_int_le_iff) simp
  finally show "power_of b (int (digits b \<bar>c\<bar>) - 1 + e) \<le> \<bar>of_int c * power_of b e\<bar>"
    by (simp only: ab)
  have "of_int \<bar>c\<bar> * power_of b e < of_int (b ^ Suc d) * power_of b e"
    using bd(2) pe by (simp only: mult_less_cancel_right of_int_less_iff) simp
  also have "\<dots> = power_of b (int (Suc d) + e)"
    by (simp only: power_of_add [OF b] power_of_nat of_int_power)
  also have "\<dots> = power_of b (int (digits b \<bar>c\<bar>) - 1 + e + 1)"
  proof -
    have "int (Suc d) + e = int (digits b \<bar>c\<bar>) - 1 + e + 1" using d by simp
    then show ?thesis by (simp only:)
  qed
  finally show "\<bar>of_int c * power_of b e\<bar> < power_of b (int (digits b \<bar>c\<bar>) - 1 + e + 1)"
    by (simp only: ab)
qed

lemma round_to_exact:
  assumes b: "2 \<le> b" and le: "e' \<le> e"
  shows "round_to b e' (of_int c * power_of b e) = of_int c * power_of b e"
proof -
  define k where "k = nat (e - e')"
  have ek: "e = int k + e'" using le by (simp add: k_def)
  have pe: "0 < power_of b e'" by (rule power_of_pos [OF b])
  have "of_int c * power_of b e / power_of b e' = of_int c * (power_of b (int k + e') / power_of b e')"
    using ek by simp
  also have "\<dots> = of_int c * power_of b (int k)"
    using pe by (simp add: power_of_add [OF b])
  also have "\<dots> = of_int (c * b ^ k)" by (simp add: power_of_nat)
  finally have q: "of_int c * power_of b e / power_of b e' = of_int (c * b ^ k)" .
  have "round_to b e' (of_int c * power_of b e) = of_int (c * b ^ k) * power_of b e'"
    by (simp only: round_to_def q round_half_even_of_int)
  also have "\<dots> = of_int c * (power_of b (int k) * power_of b e')" by (simp add: power_of_nat)
  also have "\<dots> = of_int c * power_of b (int k + e')" by (simp only: power_of_add [OF b])
  also have "\<dots> = of_int c * power_of b e" using ek by simp
  finally show ?thesis .
qed

lemma ctx_round_exact:
  assumes c: "\<bar>c\<bar> < 10 ^ prec" and lo: "Etiny \<le> e"
    and hi: "int (digits 10 \<bar>c\<bar>) - 1 + e \<le> Emax"
  shows "ctx_round (of_int c * power_of 10 e) = Inr (of_int c * power_of 10 e)"
proof (cases "c = 0")
  case True
  then show ?thesis by (simp add: ctx_round_def)
next
  case False
  let ?x = "of_int c * power_of 10 e :: rat"
  have b: "(2::int) \<le> 10" by simp
  have xnz: "?x \<noteq> 0" using False power_of_pos [OF b, of e] by simp
  have adj: "adjusted 10 ?x = int (digits 10 \<bar>c\<bar>) - 1 + e"
    by (rule adjusted_coefficient [OF b False])
  have "digits 10 \<bar>c\<bar> \<le> prec"
    using False c by (intro digits_le) simp_all
  then have le: "adjusted 10 ?x - (int prec - 1) \<le> e" using adj by simp
  show ?thesis
  proof (cases "adjusted 10 ?x < Emin")
    case True
    then show ?thesis
      using xnz by (simp add: ctx_round_def round_to_exact [OF b lo])
  next
    case False
    have r: "round_to 10 (adjusted 10 ?x - (int prec - 1)) ?x = ?x"
      by (rule round_to_exact [OF b le])
    have "\<not> Emax < adjusted 10 ?x" using hi adj by simp
    then show ?thesis
      using xnz False by (simp add: ctx_round_def Let_def r)
  qed
qed


lemma float_result_exact:
  assumes c: "\<bar>c\<bar> < 2 ^ 53" and lo: "- 1074 \<le> e"
    and hi: "int (digits 2 \<bar>c\<bar>) - 1 + e < 1024"
  shows "float_result (of_int c * power_of 2 e) = Inr (of_int c * power_of 2 e)"
proof (cases "c = 0")
  case True
  then show ?thesis by (simp add: float_result_def float_nearest_def)
next
  case False
  let ?x = "of_int c * power_of 2 e :: rat"
  have b: "(2::int) \<le> 2" by simp
  have xnz: "?x \<noteq> 0" using False power_of_pos [OF b, of e] by simp
  have adj: "adjusted 2 ?x = int (digits 2 \<bar>c\<bar>) - 1 + e"
    by (rule adjusted_coefficient [OF b False])
  have "digits 2 \<bar>c\<bar> \<le> 53"
    using False c by (intro digits_le) simp_all
  then have le: "adjusted 2 ?x - 52 \<le> e" using adj by simp
  have n: "float_nearest ?x = ?x"
  proof (cases "adjusted 2 ?x < - 1022")
    case True
    then show ?thesis
      using xnz by (simp add: float_nearest_def round_to_exact [OF b lo])
  next
    case False
    then show ?thesis
      using xnz by (simp add: float_nearest_def round_to_exact [OF b le])
  qed
  have "\<bar>?x\<bar> < power_of 2 (adjusted 2 ?x + 1)" by (rule adjusted_upper [OF b xnz])
  also have "\<dots> \<le> power_of 2 1024"
    using hi adj by (intro power_of_mono) simp_all
  also have "\<dots> = 2 ^ 1024" by (simp add: power_of_def)
  finally have "\<not> 2 ^ 1024 \<le> \<bar>?x\<bar>" by simp
  then show ?thesis by (simp add: float_result_def n Let_def)
qed

lemma float_eighth_exact:
  assumes "0 \<le> m" and "m \<le> 2 ^ 53"
  shows "float_result (of_int m / 8) = Inr (of_int m / 8)"
proof (cases "m = 2 ^ 53")
  case True
  have eq: "(of_int m :: rat) / 8 = of_int 1 * power_of 2 50"
    using True by (simp add: power_of_def)
  show ?thesis
    unfolding eq by (rule float_result_exact) (simp_all add: digits.simps)
next
  case False
  then have lt: "\<bar>m\<bar> < 2 ^ 53" using assms by simp
  have b: "(2::int) \<le> 2" by simp
  have d: "int (digits 2 \<bar>m\<bar>) - 1 + - 3 < 1024"
  proof (cases "m = 0")
    case True
    then show ?thesis by (simp add: digits.simps)
  next
    case False
    then have "digits 2 \<bar>m\<bar> \<le> 53"
      using lt by (intro digits_le) simp_all
    then show ?thesis by simp
  qed
  have p: "power_of 2 (- 3) = 1 / 8" by (simp add: power_of_def)
  have eq: "(of_int m :: rat) / 8 = of_int m * power_of 2 (- 3)"
    by (simp only: p times_divide_eq_right mult_1_right)
  show ?thesis
    unfolding eq using lt d by (intro float_result_exact) simp_all
qed

section \<open>Decimal arithmetic: results that are exact, and results that exist\<close>

text \<open>Every number \<open>c \<times> 10\<^sup>e\<close> with a coefficient of at most \<open>prec\<close> digits, an
  exponent of at least \<open>Etiny\<close> and a leading digit at or below \<open>Emax\<close> is held
  without rounding.\<close>

lemma exact_coefficient:
  "\<bar>c\<bar> < 10 ^ prec \<Longrightarrow> Etiny \<le> e \<Longrightarrow> int (digits 10 \<bar>c\<bar>) - 1 + e \<le> Emax
   \<Longrightarrow> exact (of_int c * power_of 10 e)"
  by (simp add: exact_def ctx_round_exact)

lemma int_of_decimal_of_int: "int_of_decimal (of_int n) = n"
  by (simp add: int_of_decimal_def)








text \<open>Some results of the decimal context, of the floating point division, and of
  \<open>int()\<close> on a text.\<close>

lemma ctx_round_examples:
  "ctx_round (10 ^ 30 + 1) = Inr (10 ^ 30)
   \<and> ctx_round (1 / 3) = Inr (3333333333333333333333333333 / 10 ^ 28)
   \<and> dec_div 1 0 = Inl DivisionByZero \<and> dec_div 0 0 = Inl InvalidOperation"
  by code_simp

lemma float_result_examples:
  "float_result (1 / 10) = Inr (3602879701896397 / 36028797018963968)
   \<and> float_result (of_int (2 ^ 53 + 1) / 8) = Inr (2 ^ 50)
   \<and> calculateRawRange (- 1) False = (0, - (1 / 2))"
  by code_simp

lemma int_of_string_examples:
  "int_of_string ''0'' = Some 0 \<and> int_of_string '' -1_000 '' = Some (- 1000)
   \<and> int_of_string ''Init'' = None \<and> int_of_string ''1__0'' = None
   \<and> int_of_string ''+'' = None"
  by code_simp

section \<open>Start bit: round trip and rejection\<close>

lemma reverse_bit_numbering_involution:
  "reverse_bit_numbering (reverse_bit_numbering b) = b"
proof -
  have "(b - b mod 8 + 7 - b mod 8) mod 8 = 7 - b mod 8"
    by presburger
  then show ?thesis
    unfolding reverse_bit_numbering_def by presburger
qed

lemma computed_startBit_getStartbit:
  "computed_startBit s (getStartbit s bitNumbering startLittle) bitNumbering startLittle
   = startBit s"
  by (auto simp add: computed_startBit_def getStartbit_def Let_def
      reverse_bit_numbering_involution)

lemma computed_startBit_update:
  "computed_startBit (s\<lparr>startBit := x\<rparr>) sb bitNumbering startLittle
   = computed_startBit s sb bitNumbering startLittle"
  by (auto simp add: computed_startBit_def Let_def)

lemma setStartbit_computed:
  "setStartbit s sb bitNumbering startLittle
   = (if computed_startBit s sb bitNumbering startLittle < 0
      then (Inl (Exception ''startBit lower zero''), s)
      else (Inr (), s\<lparr>startBit := computed_startBit s sb bitNumbering startLittle\<rparr>))"
  by (simp add: setStartbit_def computed_startBit_def Let_def)

lemma setStartbit_getStartbit_succeeds:
  "fst (setStartbit s (getStartbit s bitNumbering startLittle) bitNumbering startLittle) = Inr ()
   \<longleftrightarrow> 0 \<le> startBit s"
  by (auto simp add: setStartbit_computed computed_startBit_getStartbit)

text \<open>
  C5. For every signal whose stored start bit is not negative (these are the signals for
  which both operations succeed, and the only start bits \<open>setStartbit\<close> ever stores):
  the position \<open>setStartbit\<close> computes from the result of \<open>getStartbit\<close>, with
  the same \<open>bitNumbering\<close> and \<open>startLittle\<close>, is the stored start bit; so
  \<open>setStartbit\<close> succeeds and writes the stored start bit back, whatever start bit
  the signal holds by then, and leaves the signal as it was when nothing was written in
  between.
\<close>

theorem setStartbit_getStartbit:
  assumes "0 \<le> startBit s"
  shows "setStartbit s (getStartbit s bitNumbering startLittle) bitNumbering startLittle
         = (Inr (), s)
       \<and> setStartbit (s\<lparr>startBit := x\<rparr>) (getStartbit s bitNumbering startLittle)
           bitNumbering startLittle
         = (Inr (), s)
       \<and> computed_startBit s (getStartbit s bitNumbering startLittle) bitNumbering startLittle
         = startBit s"
  using assms
  by (simp add: setStartbit_computed computed_startBit_update computed_startBit_getStartbit)

theorem setStartbit_getStartbit_witness:
  "getStartbit msb_signal (Some 1) (Some True) = 21
   \<and> setStartbit (msb_signal\<lparr>startBit := 0\<rparr>) 21 (Some 1) (Some True) = (Inr (), msb_signal)
   \<and> computed_startBit msb_signal 21 (Some 1) (Some True) = 7
   \<and> startBit msb_signal = 7"
proof -
  have g: "getStartbit msb_signal (Some 1) (Some True) = 21"
    by (simp add: msb_signal_def Signal_init_def attrs_post_init_def multiplexSetter_def
        getStartbit_def numbering_differs_def reverse_bit_numbering_def)
  have p: "0 \<le> startBit msb_signal"
    by (simp add: msb_signal_def Signal_init_def attrs_post_init_def multiplexSetter_def)
  have s: "startBit msb_signal = 7"
    by (simp add: msb_signal_def Signal_init_def attrs_post_init_def multiplexSetter_def)
  from setStartbit_getStartbit [OF p, of "Some 1" "Some True" 0] show ?thesis
    by (simp add: g s)
qed

text \<open>
  C6. When the bit position computed from the argument (after the reversal of the bit
  numbering and the conversion from the least significant to the most significant bit)
  is negative, \<open>setStartbit\<close> raises and the signal is unchanged; otherwise that
  position, which is not negative, is stored and nothing else changes.
\<close>

theorem setStartbit_negative_raises:
  "(computed_startBit s sb bitNumbering startLittle < 0 \<longrightarrow>
      setStartbit s sb bitNumbering startLittle = (Inl (Exception ''startBit lower zero''), s))
   \<and> (\<not> computed_startBit s sb bitNumbering startLittle < 0 \<longrightarrow>
      setStartbit s sb bitNumbering startLittle
        = (Inr (), s\<lparr>startBit := computed_startBit s sb bitNumbering startLittle\<rparr>))"
  by (simp add: setStartbit_def computed_startBit_def Let_def)

theorem setStartbit_negative_raises_witness:
  "setStartbit
     \<lparr>name = ''S'', startBit = 7, size_sig = 12, is_little_endian = False, is_signed = False,
      offset = 0, factor = 1, min_sig = 0, max_sig = 4095, multiplex = MuxNone,
      is_float = False, attributes = Map.empty, values_tbl = [], mux_val = None,
      is_multiplexer = True\<rparr> 3 (Some 0) (Some True)
   = (Inl (Exception ''startBit lower zero''),
     \<lparr>name = ''S'', startBit = 7, size_sig = 12, is_little_endian = False, is_signed = False,
      offset = 0, factor = 1, min_sig = 0, max_sig = 4095, multiplex = MuxNone,
      is_float = False, attributes = Map.empty, values_tbl = [], mux_val = None,
      is_multiplexer = True\<rparr>)
   \<and> setStartbit
     \<lparr>name = ''S'', startBit = 7, size_sig = 12, is_little_endian = False, is_signed = False,
      offset = 0, factor = 1, min_sig = 0, max_sig = 4095, multiplex = MuxNone,
      is_float = False, attributes = Map.empty, values_tbl = [], mux_val = None,
      is_multiplexer = True\<rparr> 20 (Some 0) (Some True)
   = (Inr (),
     \<lparr>name = ''S'', startBit = 9, size_sig = 12, is_little_endian = False, is_signed = False,
      offset = 0, factor = 1, min_sig = 0, max_sig = 4095, multiplex = MuxNone,
      is_float = False, attributes = Map.empty, values_tbl = [], mux_val = None,
      is_multiplexer = True\<rparr>)"
  using setStartbit_negative_raises
    [of "\<lparr>name = ''S'', startBit = 7, size_sig = 12, is_little_endian = False, is_signed = False,
      offset = 0, factor = 1, min_sig = 0, max_sig = 4095, multiplex = MuxNone,
      is_float = False, attributes = Map.empty, values_tbl = [], mux_val = None,
      is_multiplexer = True\<rparr>" 3 "Some 0" "Some True"]
    setStartbit_negative_raises
    [of "\<lparr>name = ''S'', startBit = 7, size_sig = 12, is_little_endian = False, is_signed = False,
      offset = 0, factor = 1, min_sig = 0, max_sig = 4095, multiplex = MuxNone,
      is_float = False, attributes = Map.empty, values_tbl = [], mux_val = None,
      is_multiplexer = True\<rparr>" 20 "Some 0" "Some True"]
  by (simp add: computed_startBit_def numbering_differs_def Let_def)

section \<open>Multiplexed frames\<close>

lemma is_multiplexed_loop_iff:
  "is_multiplexed_loop sigs \<longleftrightarrow> (\<exists>s \<in> set sigs. is_multiplexer s)"
  by (induction sigs) auto

lemma is_multiplexer_Signal_init:
  "is_multiplexer (Signal_init nm sb sz le sg mux off fac mn mx)
   \<longleftrightarrow> mux = MuxNone \<or> mux = MuxMultiplexor"
  by (cases mux) (simp_all add: Signal_init_def attrs_post_init_def multiplexSetter_def)

lemma is_multiplexer_Signal:
  "Signal nm sb sz le sg mux = Inr s \<Longrightarrow>
   is_multiplexer s \<longleftrightarrow> mux = MuxNone \<or> mux = MuxMultiplexor"
  by (auto simp add: Signal_def Signal_scaled_def is_multiplexer_Signal_init
      split: sum.splits)

text \<open>The limits of the example signals are those the constructor computes.\<close>

lemma default_limits:
  "calcMin 8 True 0 1 = Inr (- 128)" "calcMax 8 True 0 1 = Inr 127"
  "calcMin 4 True 0 1 = Inr (- 8)" "calcMax 4 True 0 1 = Inr 7"
  "calcMin 0 True 0 1 = Inr (- (1 / 2))" "calcMax 0 True 0 1 = Inr (- (1 / 2))"
  "calcMin 6 False 0 1 = Inr 0" "calcMax 6 False 0 1 = Inr 63"
  "calcMin 2 True 0 1 = Inr (- 2)" "calcMax 2 True 0 1 = Inr 1"
  "calcMin 6 True 0 1 = Inr (- 32)" "calcMax 6 True 0 1 = Inr 31"
  "calcMin 2 False 0 1 = Inr 0" "calcMax 2 False 0 1 = Inr 3"
  "calcMin 4 False 0 1 = Inr 0" "calcMax 4 False 0 1 = Inr 15"
  "calcMin 12 False 0 1 = Inr 0" "calcMax 12 False 0 1 = Inr 4095"
  "calcMin 1 True 0 1 = Inr (- 1)" "calcMax 1 True 0 1 = Inr 0"
  "calcMin 8 False 0 1 = Inr 0" "calcMax 8 False 0 1 = Inr 255"
  by code_simp+

lemma scaled_limits:
  "calcMin 8 True (1 / 4) (1 / 10) = Inr (- (251 / 20))"
  "calcMax 8 True (1 / 4) (1 / 10) = Inr (259 / 20)"
  "calcMin 8 True (10 ^ 30) 1 = Inr 999999999999999999999999999900"
  "calcMax 8 True (10 ^ 30) 1 = Inr (10 ^ 30)"
  by code_simp+

lemma plain_signal_constructed: "Signal ''S'' 0 8 True True MuxNone = Inr plain_signal"
  by (simp add: Signal_def Signal_scaled_def default_limits plain_signal_def)

lemma plain_frame_constructed:
  "map (\<lambda>s. Signal (name s) (startBit s) (size_sig s) (is_little_endian s) (is_signed s)
          (multiplex s)) (signals plain_frame)
   = map Inr (signals plain_frame)"
  by (simp add: plain_frame_def Signal_def Signal_scaled_def default_limits Signal_init_def
      attrs_post_init_def multiplexSetter_def)

text \<open>
  C4. A frame is multiplexed if and only if one of its signals is the multiplexor, and a
  signal whose \<open>multiplex\<close> is \<open>None\<close> is not a multiplexor. On the code this fails:
  the frame whose only signal was built with \<open>multiplex = None\<close> is multiplexed,
  because \<open>multiplexSetter\<close> sets \<open>is_multiplexer\<close> for \<open>None\<close> as it does for
  \<open>'Multiplexor'\<close>.
\<close>

theorem plain_frame_is_multiplexed:
  "multiplex (hd (signals plain_frame)) = MuxNone
   \<and> is_multiplexer (hd (signals plain_frame)) = True
   \<and> is_multiplexed plain_frame = True"
  by (simp add: plain_frame_def is_multiplexed_def Signal_init_def attrs_post_init_def
      multiplexSetter_def)

section \<open>Length of a frame\<close>

lemma maxBit_loop_Max:
  "maxBit_loop m sigs = Max (insert m ((\<lambda>s. getStartbit s None None + size_sig s) ` set sigs))"
proof (induction sigs arbitrary: m)
  case Nil
  then show ?case by simp
next
  case (Cons s sigs)
  let ?e = "getStartbit s None None + size_sig s"
  let ?E = "(\<lambda>s. getStartbit s None None + size_sig s) ` set sigs"
  have "Max (insert (max m ?e) ?E) = Max (insert m (insert ?e ?E))"
  proof (cases "?E = {}")
    case True
    then show ?thesis by simp
  next
    case False
    then show ?thesis by (simp add: max.assoc)
  qed
  moreover have "(if ?e > m then ?e else m) = max m ?e"
    by (simp add: max_def)
  ultimately show ?case using Cons.IH [of "max m ?e"]
    by simp
qed

lemma maxBit_loop_bounds:
  assumes "ends_within bound f" and "0 \<le> bound"
  shows "0 \<le> maxBit_loop 0 (signals f) \<and> maxBit_loop 0 (signals f) \<le> bound"
proof -
  let ?E = "(\<lambda>s. getStartbit s None None + size_sig s) ` set (signals f)"
  have "Max (insert 0 ?E) \<in> insert 0 ?E"
    by (rule Max_in) simp_all
  moreover have "\<forall>x \<in> insert 0 ?E. x \<le> bound"
    using assms by (auto simp add: ends_within_def list_all_iff)
  moreover have "0 \<le> Max (insert 0 ?E)"
    by (rule Max_ge) simp_all
  ultimately show ?thesis
    unfolding maxBit_loop_Max by blast
qed

text \<open>Up to \<open>2\<^sup>5\<^sup>3\<close> the division by 8 is exact in floating point, and
  \<open>math.ceil(maxBit / 8)\<close> is the ceiling of the quotient.\<close>

lemma ceil_div8_exact:
  "0 \<le> m \<Longrightarrow> m \<le> 2 ^ 53 \<Longrightarrow> ceil_div8 m = Inr \<lceil>(of_int m :: rat) / 8\<rceil>"
  by (simp add: ceil_div8_def float_eighth_exact)

lemma ceil_div8_minimal_size:
  "ends_within (2 ^ 53) f \<Longrightarrow> ceil_div8 (maxBit_loop 0 (signals f)) = Inr (minimal_size f)"
  using maxBit_loop_bounds [of "2 ^ 53" f]
  by (simp add: ceil_div8_exact) (simp add: minimal_size_def maxBit_loop_Max)

lemma calcDLC_exact:
  "ends_within (2 ^ 53) f \<Longrightarrow>
   calcDLC f = Inr (f\<lparr>frame_size := max (frame_size f) (minimal_size f)\<rparr>)"
  by (simp add: calcDLC_def ceil_div8_minimal_size)

lemma recalcDLC_frame_max:
  "ends_within (2 ^ 53) f \<Longrightarrow>
   recalcDLC_frame ''max'' f = Inr (f\<lparr>frame_size := max (frame_size f) (minimal_size f)\<rparr>)"
  by (simp add: recalcDLC_frame_def calcDLC_exact)

lemma recalcDLC_frame_force:
  "ends_within (2 ^ 53) f \<Longrightarrow>
   recalcDLC_frame ''force'' f = Inr (f\<lparr>frame_size := minimal_size f\<rparr>)"
  by (simp add: recalcDLC_frame_def ceil_div8_minimal_size)

lemma recalcDLC_loop_max:
  "list_all (ends_within (2 ^ 53)) fs \<Longrightarrow>
   recalcDLC_loop ''max'' fs
   = (Inr (), map (\<lambda>f. f\<lparr>frame_size := max (frame_size f) (minimal_size f)\<rparr>) fs)"
  by (induction fs) (simp_all add: recalcDLC_frame_max)

lemma recalcDLC_loop_force:
  "list_all (ends_within (2 ^ 53)) fs \<Longrightarrow>
   recalcDLC_loop ''force'' fs = (Inr (), map (\<lambda>f. f\<lparr>frame_size := minimal_size f\<rparr>) fs)"
  by (induction fs) (simp_all add: recalcDLC_frame_force)

lemma far_frame_maxBit: "maxBit_loop 0 (signals far_frame) = 2 ^ 53 + 1"
  by (simp add: far_frame_def plain_frame_def Signal_init_def attrs_post_init_def
      multiplexSetter_def getStartbit_def numbering_differs_def)

lemma ceil_div8_far: "ceil_div8 (2 ^ 53 + 1) = Inr (2 ^ 50)"
  by code_simp

lemma long_frame_minimal_size: "minimal_size long_frame = 1"
  by code_simp

lemma far_frame_ceiling: "\<lceil>(of_int (2 ^ 53 + 1) :: rat) / 8\<rceil> = 2 ^ 50 + 1"
  by code_simp

lemma long_frame_ends_within: "ends_within (2 ^ 53) long_frame"
  by (simp add: ends_within_def long_frame_def plain_frame_def Signal_init_def
      attrs_post_init_def multiplexSetter_def getStartbit_def numbering_differs_def)

text \<open>
  C9, as stated: for every frame the strategy \<open>max\<close> sets the size to the maximum of
  the size and \<open>ceil(maxBit / 8)\<close>, and \<open>force\<close> to \<open>ceil(maxBit / 8)\<close> exactly.
  The code divides in floating point: for the frame of size 0 whose only signal is the
  bit \<open>2\<^sup>5\<^sup>3\<close>, \<open>maxBit\<close> is \<open>2\<^sup>5\<^sup>3 + 1\<close>, the quotient \<open>maxBit / 8\<close> is
  rounded to \<open>2\<^sup>5\<^sup>0\<close>, and both strategies set the size \<open>2\<^sup>5\<^sup>0\<close>, one byte less
  than the bytes that hold the signal.
\<close>

theorem recalcDLC_far_frame_counterexample:
  "frame_size far_frame = 0
   \<and> minimal_size far_frame = 2 ^ 50 + 1
   \<and> calcDLC far_frame = Inr (far_frame\<lparr>frame_size := 2 ^ 50\<rparr>)
   \<and> recalcDLC_frame ''max'' far_frame = Inr (far_frame\<lparr>frame_size := 2 ^ 50\<rparr>)
   \<and> recalcDLC_frame ''force'' far_frame = Inr (far_frame\<lparr>frame_size := 2 ^ 50\<rparr>)"
proof -
  have s: "frame_size far_frame = 0"
    by (simp add: far_frame_def)
  have m: "minimal_size far_frame = 2 ^ 50 + 1"
    by (simp only: minimal_size_def maxBit_loop_Max [symmetric] far_frame_maxBit
        far_frame_ceiling)
  have d: "ceil_div8 (maxBit_loop 0 (signals far_frame)) = Inr (2 ^ 50)"
    by (simp only: far_frame_maxBit ceil_div8_far)
  have c: "calcDLC far_frame = Inr (far_frame\<lparr>frame_size := 2 ^ 50\<rparr>)"
    by (simp add: calcDLC_def d s)
  have f: "recalcDLC_frame ''force'' far_frame = Inr (far_frame\<lparr>frame_size := 2 ^ 50\<rparr>)"
    by (simp add: recalcDLC_frame_def d)
  have x: "recalcDLC_frame ''max'' far_frame = Inr (far_frame\<lparr>frame_size := 2 ^ 50\<rparr>)"
    by (simp add: recalcDLC_frame_def c)
  from s m c x f show ?thesis by simp
qed

text \<open>
  C9, amended: when every signal of every frame ends at or below bit \<open>2\<^sup>5\<^sup>3\<close>,
  \<open>recalcDLC\<close> with strategy \<open>max\<close> returns and gives every frame the size
  \<open>max(size, ceil(maxBit / 8))\<close>, where \<open>maxBit\<close> is the greatest
  \<open>getStartbit() + size\<close> over its signals (and 0 when there is none above 0), so no
  size decreases; with strategy \<open>force\<close> it gives every frame exactly the size
  \<open>ceil(maxBit / 8)\<close>, which can be less than before: the frame of eight bytes whose
  only signal ends at bit 8 gets size 1.
\<close>

theorem recalcDLC_max_force:
  assumes "list_all (ends_within (2 ^ 53)) (frames db)"
  shows "recalcDLC db ''max''
         = (Inr (), db\<lparr>frames :=
              map (\<lambda>f. f\<lparr>frame_size := max (frame_size f) (minimal_size f)\<rparr>) (frames db)\<rparr>)
       \<and> list_all2 (\<lambda>f g. frame_size f \<le> frame_size g)
           (frames db) (frames (snd (recalcDLC db ''max'')))
       \<and> recalcDLC db ''force''
         = (Inr (), db\<lparr>frames := map (\<lambda>f. f\<lparr>frame_size := minimal_size f\<rparr>) (frames db)\<rparr>)
       \<and> frame_size long_frame = 8
       \<and> recalcDLC \<lparr>frames = [long_frame]\<rparr> ''force''
         = (Inr (), \<lparr>frames = [long_frame\<lparr>frame_size := 1\<rparr>]\<rparr>)"
proof -
  have a: "recalcDLC db ''max''
         = (Inr (), db\<lparr>frames :=
              map (\<lambda>f. f\<lparr>frame_size := max (frame_size f) (minimal_size f)\<rparr>) (frames db)\<rparr>)"
    using assms by (simp add: recalcDLC_def recalcDLC_loop_max)
  have b: "list_all2 (\<lambda>f g. frame_size f \<le> frame_size g)
           (frames db) (frames (snd (recalcDLC db ''max'')))"
    by (simp add: a list_all2_conv_all_nth)
  have c: "recalcDLC db ''force''
         = (Inr (), db\<lparr>frames := map (\<lambda>f. f\<lparr>frame_size := minimal_size f\<rparr>) (frames db)\<rparr>)"
    using assms by (simp add: recalcDLC_def recalcDLC_loop_force)
  have d: "frame_size long_frame = 8"
    by (simp add: long_frame_def)
  have e: "recalcDLC \<lparr>frames = [long_frame]\<rparr> ''force''
         = (Inr (), \<lparr>frames = [long_frame\<lparr>frame_size := 1\<rparr>]\<rparr>)"
    by (simp add: recalcDLC_def recalcDLC_frame_force [OF long_frame_ends_within]
        long_frame_minimal_size)
  from a b c d e show ?thesis by simp
qed

theorem recalcDLC_max_force_witness:
  "recalcDLC \<lparr>frames = [long_frame, two_signal_frame\<lparr>frame_size := 1\<rparr>]\<rparr> ''max''
   = (Inr (), \<lparr>frames = [long_frame, two_signal_frame]\<rparr>)
   \<and> recalcDLC \<lparr>frames = [long_frame, two_signal_frame\<lparr>frame_size := 1\<rparr>]\<rparr> ''force''
   = (Inr (), \<lparr>frames = [long_frame\<lparr>frame_size := 1\<rparr>, two_signal_frame]\<rparr>)"
proof -
  have t: "ends_within (2 ^ 53) (two_signal_frame\<lparr>frame_size := 1\<rparr>)"
    by (simp add: ends_within_def two_signal_frame_def Signal_init_def
        attrs_post_init_def multiplexSetter_def getStartbit_def numbering_differs_def)
  have m: "minimal_size (two_signal_frame\<lparr>frame_size := 1\<rparr>) = 2"
    by code_simp
  have h: "list_all (ends_within (2 ^ 53))
             (frames \<lparr>frames = [long_frame, two_signal_frame\<lparr>frame_size := 1\<rparr>]\<rparr>)"
    using t long_frame_ends_within by simp
  have l: "long_frame\<lparr>frame_size := 8\<rparr> = long_frame"
    by (simp add: long_frame_def)
  have w: "two_signal_frame\<lparr>frame_size := 2\<rparr> = two_signal_frame"
    by (simp add: two_signal_frame_def)
  from recalcDLC_max_force [OF h] show ?thesis
    by (simp add: m long_frame_minimal_size l w)
qed

section \<open>J1939 identifier\<close>

lemma recalcJ1939Id_j1939_frame:
  "recalcJ1939Id j1939_frame
   = Inr (j1939_frame\<lparr>frame_id := 213839634, extended := True, is_j1939 := True\<rparr>)"
  by (simp add: recalcJ1939Id_def j1939_frame_def)

text \<open>
  C10, as stated: decomposing the identifier composed from source \<open>0x12\<close>, PGN
  \<open>0xBEEF\<close> and priority 3 gives back these three values. It does not: the three
  values of \<open>CanId\<close> are destination, PGN and source, the destination is 12, and no
  field holds the priority 3.
\<close>

theorem CanId_priority_counterexample:
  "recalcJ1939Id j1939_frame
     = Inr (j1939_frame\<lparr>frame_id := 213839634, extended := True, is_j1939 := True\<rparr>)
   \<and> tuples (CanId 213839634 True) \<noteq> (Some 3, Some 48879, Some 18)
   \<and> destination (CanId 213839634 True) \<noteq> Some 3
   \<and> pgn (CanId 213839634 True) \<noteq> Some 3
   \<and> source (CanId 213839634 True) \<noteq> Some 3"
  by (simp add: recalcJ1939Id_j1939_frame) (simp add: tuples_def CanId_def)

text \<open>
  C10, amended: decomposing the identifier composed from source \<open>0x12\<close>, PGN
  \<open>0xBEEF\<close> and priority 3 gives back the source \<open>0x12\<close> and the PGN
  \<open>0xBEEF\<close>; the third value of \<open>CanId\<close> is the destination, bits 24 to 31 of
  the identifier, which is 12, the priority shifted left by two bits.
\<close>

theorem CanId_roundtrip_source_pgn:
  "recalcJ1939Id j1939_frame
     = Inr (j1939_frame\<lparr>frame_id := 213839634, extended := True, is_j1939 := True\<rparr>)
   \<and> source (CanId 213839634 True) = Some 18
   \<and> pgn (CanId 213839634 True) = Some 48879
   \<and> destination (CanId 213839634 True) = Some 12
   \<and> tuples (CanId 213839634 True) = (Some (push_bit 2 3), Some 48879, Some 18)"
  by (simp add: recalcJ1939Id_j1939_frame) (simp add: tuples_def CanId_def)

section \<open>Raw and physical values\<close>




text \<open>\<open>phys2raw\<close> of a number, in one piece: the outcome of the two operations of
  the decimal context, and the record logged when the number is outside the limits.\<close>

lemma phys2raw_Num:
  "phys2raw s (Some (Num x))
   = (case dec_sub x (offset s) of
        Inl e \<Rightarrow> Inl e
      | Inr d \<Rightarrow>
          (case dec_div d (factor s) of
             Inl e \<Rightarrow> Inl e
           | Inr raw \<Rightarrow> Inr (if is_float s then RawDec raw else RawInt (int_of_decimal raw))),
      if min_sig s \<le> x \<and> x \<le> max_sig s then []
      else [NotValid (Num x) (name s) (min_sig s) (max_sig s)])"
  by (simp add: phys2raw_def phys2raw_number_def Let_def split: sum.splits)








lemma choice_signal_constructed:
  "map_sum id (\<lambda>s. s\<lparr>values_tbl := [(0, ''Off''), (1, ''On'')]\<rparr>)
     (Signal ''C'' 0 8 True False MuxNone)
   = Inr choice_signal"
  by (simp add: Signal_def Signal_scaled_def default_limits choice_signal_def)



lemma tenth_signal_fields:
  "factor tenth_signal = 1 / 10" "offset tenth_signal = 1 / 4" "is_float tenth_signal = False"
  "name tenth_signal = ''T''"
  "min_sig tenth_signal = - (251 / 20)" "max_sig tenth_signal = 259 / 20"
  by (simp_all add: tenth_signal_def Signal_init_def attrs_post_init_def multiplexSetter_def)

lemma tenth_signal_constructed:
  "Signal_scaled ''T'' 0 8 True True MuxNone (1 / 4) (1 / 10) = Inr tenth_signal"
  by (simp add: Signal_scaled_def scaled_limits tenth_signal_def)

lemma big_offset_signal_constructed:
  "Signal_scaled ''B'' 0 8 True True MuxNone (10 ^ 30) 1 = Inr big_offset_signal"
  by (simp only: Signal_scaled_def scaled_limits big_offset_signal_def sum.case)


lemma raw_range_8: "calculateRawRange 8 True = (- 128, 127)"
  by (simp add: calculateRawRange_def)

lemma tiny_factor_products:
  "ctx_round (- 128 * power_of 10 (- 999999)) = Inr (- 128 * power_of 10 (- 999999))"
  "ctx_round (127 * power_of 10 (- 999999)) = Inr (127 * power_of 10 (- 999999))"
proof -
  have d: "digits 10 128 = 3" "digits 10 127 = 3"
    by (simp_all add: digits.simps)
  show "ctx_round (- 128 * power_of 10 (- 999999)) = Inr (- 128 * power_of 10 (- 999999))"
    using ctx_round_exact [of "- 128" "- 999999"]
    by (simp add: d prec_def Etiny_def Emin_def Emax_def)
  show "ctx_round (127 * power_of 10 (- 999999)) = Inr (127 * power_of 10 (- 999999))"
    using ctx_round_exact [of 127 "- 999999"]
    by (simp add: d prec_def Etiny_def Emin_def Emax_def)
qed

lemma tiny_factor_signal_constructed:
  "Signal_scaled ''P'' 0 8 True True MuxNone 0 (power_of 10 (- 999999))
   = Inr tiny_factor_signal"
  using tiny_factor_products
  by (simp add: Signal_scaled_def calcMin_def calcMax_def raw_range_8 dec_mul_def dec_add_def
      tiny_factor_signal_def)











text \<open>Conversely, a number held without rounding has such a coefficient and exponent.\<close>

lemma coefficient_bound:
  assumes b: "2 \<le> b" and x: "\<bar>of_int m * power_of b e\<bar> < power_of b (e + int k)"
  shows "\<bar>m\<bar> < b ^ k"
proof -
  have pe: "0 < power_of b e" by (rule power_of_pos [OF b])
  have "power_of b (e + int k) = power_of b e * of_int (b ^ k)"
    using power_of_add [OF b, of e "int k"] by (simp add: power_of_nat)
  then have "of_int \<bar>m\<bar> * power_of b e < of_int (b ^ k) * power_of b e"
    using x pe by (simp add: abs_mult mult.commute)
  then have "(of_int \<bar>m\<bar> :: rat) < of_int (b ^ k)"
    using pe by (simp only: mult_less_cancel_right_pos)
  then show ?thesis by (simp only: of_int_less_iff)
qed

lemma exact_bounds:
  assumes ex: "exact x" and xnz: "x \<noteq> 0"
  shows "\<exists>c e. x = of_int c * power_of 10 e \<and> \<bar>c\<bar> < 10 ^ prec \<and> Etiny \<le> e
           \<and> adjusted 10 x \<le> Emax"
proof -
  have b: "(2::int) \<le> 10" by simp
  let ?a = "adjusted 10 x"
  have up: "\<bar>x\<bar> < power_of 10 (?a + 1)" by (rule adjusted_upper [OF b xnz])
  show ?thesis
  proof (cases "?a < Emin")
    case True
    let ?m = "round_half_even (x / power_of 10 Etiny)"
    have r: "x = of_int ?m * power_of 10 Etiny"
      using ex xnz True by (simp add: exact_def ctx_round_def round_to_def)
    have "power_of 10 (?a + 1) \<le> power_of 10 (Etiny + int 27)"
      using True by (intro power_of_mono) (simp_all add: Etiny_def prec_def)
    then have "\<bar>of_int ?m * power_of 10 Etiny\<bar> < power_of 10 (Etiny + int 27)"
      using up r by simp
    then have "\<bar>?m\<bar> < 10 ^ 27" by (rule coefficient_bound [OF b])
    then have "\<bar>?m\<bar> < 10 ^ prec" by (simp add: prec_def)
    moreover have "?a \<le> Emax" using True by (simp add: Emin_def Emax_def)
    ultimately show ?thesis using r by blast
  next
    case False
    let ?e = "?a - (int prec - 1)"
    let ?m = "round_half_even (x / power_of 10 ?e)"
    have c: "ctx_round x = (if Emax < adjusted 10 (round_to 10 ?e x) then Inl Overflow
                            else Inr (round_to 10 ?e x))"
      using xnz False by (simp add: ctx_round_def Let_def)
    have r0: "round_to 10 ?e x = x" and hi: "\<not> Emax < adjusted 10 (round_to 10 ?e x)"
      using ex c by (simp_all add: exact_def split: if_splits)
    have r: "x = of_int ?m * power_of 10 ?e"
      using r0 by (simp add: round_to_def)
    have "power_of 10 (?a + 1) = power_of 10 (?e + int prec)"
      by (simp add: algebra_simps)
    then have "\<bar>of_int ?m * power_of 10 ?e\<bar> < power_of 10 (?e + int prec)"
      using up r by simp
    then have "\<bar>?m\<bar> < 10 ^ prec" by (rule coefficient_bound [OF b])
    moreover have "Etiny \<le> ?e" using False by (simp add: Etiny_def)
    moreover have "?a \<le> Emax" using hi r0 by simp
    ultimately show ?thesis using r by blast
  qed
qed

text \<open>A product of magnitude below \<open>5 \<times> 10\<^sup>E\<^sup>t\<^sup>i\<^sup>n\<^sup>y\<^sup>-\<^sup>1\<close> underflows to zero.\<close>

lemma round_half_even_small: "\<bar>q\<bar> < 1 / 2 \<Longrightarrow> round_half_even q = 0"
proof (cases "0 \<le> q")
  case True
  assume "\<bar>q\<bar> < 1 / 2"
  then have "\<lfloor>q\<rfloor> = 0" using True by (simp add: floor_unique)
  then show ?thesis using \<open>\<bar>q\<bar> < 1 / 2\<close> True by (simp add: round_half_even_def Let_def)
next
  case False
  assume a: "\<bar>q\<bar> < 1 / 2"
  then have f: "\<lfloor>q\<rfloor> = - 1" using False by (intro floor_unique) simp_all
  have "1 / 2 < q - of_int \<lfloor>q\<rfloor>" using a False by (simp add: f)
  then show ?thesis by (simp add: round_half_even_def Let_def f)
qed

lemma ctx_round_underflow:
  assumes nz: "c \<noteq> 0" and c: "\<bar>c\<bar> < 5000"
  shows "ctx_round (of_int c * power_of 10 (- 1000030)) = Inr 0"
proof -
  let ?x = "of_int c * power_of 10 (- 1000030) :: rat"
  have b: "(2::int) \<le> 10" by simp
  have xnz: "?x \<noteq> 0" using nz power_of_pos [OF b, of "- 1000030"] by simp
  have "digits 10 \<bar>c\<bar> \<le> 4"
    using nz c by (intro digits_le) simp_all
  then have adj: "adjusted 10 ?x < Emin"
    by (simp add: adjusted_coefficient [OF b nz] Emin_def)
  have e: "- 1000030 = - 4 + Etiny" by (simp add: Etiny_def Emin_def prec_def)
  have s: "power_of 10 (- 1000030) = power_of 10 (- 4) * power_of 10 Etiny"
    unfolding e by (rule power_of_add [OF b])
  have "power_of 10 Etiny \<noteq> 0" using power_of_pos [OF b, of Etiny] by simp
  then have "?x / power_of 10 Etiny = of_int c * power_of 10 (- 4)"
    unfolding s by simp
  also have "\<dots> = of_int c / 10000" by (simp add: power_of_def)
  finally have q: "?x / power_of 10 Etiny = of_int c / 10000" .
  have "\<bar>(of_int c :: rat) / 10000\<bar> < 1 / 2"
  proof -
    have "(of_int \<bar>c\<bar> :: rat) < of_int 5000" using c by (simp only: of_int_less_iff)
    then show ?thesis by simp
  qed
  then have "round_half_even (?x / power_of 10 Etiny) = 0"
    by (simp only: q round_half_even_small)
  then have "round_to 10 Etiny ?x = 0" by (simp add: round_to_def)
  then show ?thesis using xnz adj by (simp add: ctx_round_def)
qed

lemma underflow_signal_fields:
  "offset underflow_signal = 0" "factor underflow_signal = power_of 10 (- 1000030)"
  "is_float underflow_signal = False" "min_sig underflow_signal = 0"
  "max_sig underflow_signal = 0"
  by (simp_all add: underflow_signal_def Signal_init_def attrs_post_init_def
      multiplexSetter_def)

lemma underflow_signal_constructed:
  "Signal_scaled ''U'' 0 8 True True MuxNone 0 (power_of 10 (- 1000030))
   = Inr underflow_signal"
  using ctx_round_underflow [of "- 128"] ctx_round_underflow [of 127]
  by (simp add: Signal_scaled_def calcMin_def calcMax_def raw_range_8 dec_mul_def dec_add_def
      underflow_signal_def ctx_round_def)

text \<open>With the factor \<open>1E-1000030\<close> the product \<open>5 \<times> factor\<close> underflows: the
  physical value of the raw value 5 is zero and comes back as the raw value 0.\<close>

lemma roundtrip_underflow:
  "raw2phys underflow_signal (RawInt 5) False = Inr (Num 0)
   \<and> roundtrip underflow_signal 5 = Inr (RawInt 0)
   \<and> \<not> exact (of_int 5 * factor underflow_signal)"
proof -
  have b: "(2::int) \<le> 10" by simp
  have p: "power_of 10 (- 1000030) \<noteq> 0" using power_of_pos [OF b, of "- 1000030"] by simp
  have u: "ctx_round (5 * power_of 10 (- 1000030)) = Inr 0"
    using ctx_round_underflow [of 5] by simp
  have z: "ctx_round 0 = Inr 0" by (simp add: ctx_round_def)
  have r: "raw2phys underflow_signal (RawInt 5) False = Inr (Num 0)"
    by (simp add: raw2phys_def raw2phys_number_def underflow_signal_fields dec_mul_def
        dec_add_def u z)
  have "phys2raw underflow_signal (Some (Num 0)) = (Inr (RawInt 0), [])"
    using p by (simp add: phys2raw_Num underflow_signal_fields dec_sub_def dec_div_def z
        int_of_decimal_def)
  then have t: "roundtrip underflow_signal 5 = Inr (RawInt 0)"
    by (simp add: roundtrip_def r)
  have "\<not> exact (of_int 5 * factor underflow_signal)"
    using p by (simp add: exact_def underflow_signal_fields u)
  with r t show ?thesis by simp
qed


text \<open>
  C2, as stated: for every signal that is not a float signal, with a decimal factor other
  than 0 and a decimal offset, \<open>phys2raw(raw2phys(raw))\<close> is \<open>raw\<close> for every raw
  value of its range. With the offset \<open>1E+30\<close> and the factor 1 the raw value 1 of an
  8-bit signal comes back as 0: the sum \<open>1 + 1E+30\<close> has 31 digits and the context
  rounds it to \<open>1E+30\<close>.
\<close>

theorem roundtrip_big_offset_counterexample:
  "\<not> is_float big_offset_signal \<and> factor big_offset_signal = 1
   \<and> fst (calculateRawRange (size_sig big_offset_signal) (is_signed big_offset_signal)) \<le> 1
   \<and> 1 \<le> snd (calculateRawRange (size_sig big_offset_signal) (is_signed big_offset_signal))
   \<and> raw2phys big_offset_signal (RawInt 1) False = Inr (Num (10 ^ 30))
   \<and> roundtrip big_offset_signal 1 = Inr (RawInt 0)"
  by code_simp

text \<open>
  C2, amended: for every signal that is not a float signal and whose factor is not 0, and
  every raw integer such that the decimal context holds \<open>raw\<close>, \<open>raw \<times> factor\<close> and
  \<open>raw \<times> factor + offset\<close> without rounding (each has at most 28 significant digits,
  no digit below \<open>10\<^sup>E\<^sup>t\<^sup>i\<^sup>n\<^sup>y\<close>, and its leading digit at or below \<open>10\<^sup>E\<^sup>m\<^sup>a\<^sup>x\<close>),
  \<open>raw2phys\<close> returns \<open>raw \<times> factor + offset\<close> and \<open>phys2raw(raw2phys(raw))\<close>
  is \<open>raw\<close> exactly; this includes the factor 0.1.
\<close>

theorem raw_roundtrip_exact:
  assumes "\<not> is_float s" and "factor s \<noteq> 0"
    and "exact (of_int raw)" and "exact (of_int raw * factor s)"
    and "exact (of_int raw * factor s + offset s)"
  shows "raw2phys s (RawInt raw) False = Inr (Num (of_int raw * factor s + offset s))
       \<and> roundtrip s raw = Inr (RawInt raw)"
proof -
  have p: "raw2phys s (RawInt raw) False = Inr (Num (of_int raw * factor s + offset s))"
    using assms
    by (simp add: raw2phys_def raw2phys_number_def dec_add_def dec_mul_def exact_def)
  have "dec_sub (of_int raw * factor s + offset s) (offset s) = Inr (of_int raw * factor s)"
    using assms by (simp add: dec_sub_def exact_def)
  moreover have "dec_div (of_int raw * factor s) (factor s) = Inr (of_int raw)"
    using assms by (simp add: dec_div_def exact_def)
  ultimately have "fst (phys2raw s (Some (Num (of_int raw * factor s + offset s))))
      = Inr (RawInt raw)"
    using assms by (simp add: phys2raw_Num int_of_decimal_of_int)
  then show ?thesis by (simp add: roundtrip_def p)
qed

theorem raw_roundtrip_exact_witness:
  "raw2phys tenth_signal (RawInt 5) False = Inr (Num (3 / 4))
   \<and> roundtrip tenth_signal 5 = Inr (RawInt 5)"
proof -
  have 1: "\<not> is_float tenth_signal"
    by (simp add: tenth_signal_fields)
  have 2: "factor tenth_signal \<noteq> 0"
    by (simp add: tenth_signal_fields)
  have 3: "exact (of_int 5)"
    by code_simp
  have 4: "exact (of_int 5 * factor tenth_signal)"
    by code_simp
  have 5: "exact (of_int 5 * factor tenth_signal + offset tenth_signal)"
    by code_simp
  from raw_roundtrip_exact [OF 1 2 3 4 5] show ?thesis
    by (simp add: tenth_signal_fields)
qed

section \<open>Width of the format\<close>

lemma format_loop_width:
  "in_sequence lo sigs F \<Longrightarrow>
   calcsize (fst (format_loop F (F - lo) sigs)) + snd (format_loop F (F - lo) sigs) = F - lo
   \<and> 0 \<le> snd (format_loop F (F - lo) sigs)"
proof (induction sigs arbitrary: lo)
  case Nil
  then show ?case by (simp add: calcsize_def)
next
  case (Cons s rest)
  let ?start = "F - start_of s - size_sig s"
  have seq: "in_sequence (start_of s + size_sig s) rest F" and lo: "lo \<le> start_of s"
    using Cons.prems by simp_all
  have st: "?start = F - (start_of s + size_sig s)" by simp
  have ih: "calcsize (fst (format_loop F ?start rest)) + snd (format_loop F ?start rest)
            = ?start \<and> 0 \<le> snd (format_loop F ?start rest)"
    using Cons.IH [OF seq] by (simp only: st)
  show ?case using ih lo
    by (simp add: Let_def split_beta calcsize_def signal_bitstruct_format_def)
qed

lemma disjoint_fields_sym: "disjoint_fields s t = disjoint_fields t s"
  by (simp add: disjoint_fields_def Int_commute)

lemma disjoint_fields_ordered:
  assumes "disjoint_fields s t" and "0 < size_sig t" and "start_of s \<le> start_of t"
  shows "start_of s + size_sig s \<le> start_of t"
proof (rule ccontr)
  assume "\<not> start_of s + size_sig s \<le> start_of t"
  then have "start_of t \<in> bit_field s \<inter> bit_field t"
    using assms by (simp add: bit_field_def)
  with assms show False by (simp add: disjoint_fields_def)
qed

lemma non_overlapping_insort:
  "non_overlapping (insort_key k x xs)
   \<longleftrightarrow> (\<forall>t \<in> set xs. disjoint_fields x t) \<and> non_overlapping xs"
proof (induction xs)
  case Nil
  then show ?case by simp
next
  case (Cons a xs)
  show ?case
  proof (cases "k x \<le> k a")
    case True
    then show ?thesis by simp
  next
    case False
    then show ?thesis
      using Cons.IH disjoint_fields_sym [of a x] by (auto simp add: set_insort_key)
  qed
qed

lemma non_overlapping_sort: "non_overlapping (sort_key k xs) = non_overlapping xs"
  by (induction xs) (simp_all add: non_overlapping_insort)

lemma in_sequence_sorted:
  assumes "sorted (map start_of sigs)" and "non_overlapping sigs"
    and "\<forall>s \<in> set sigs. 0 < size_sig s"
    and "\<forall>s \<in> set sigs. lo \<le> start_of s \<and> start_of s + size_sig s \<le> hi"
    and "lo \<le> hi"
  shows "in_sequence lo sigs hi"
  using assms
proof (induction sigs arbitrary: lo)
  case Nil
  then show ?case by simp
next
  case (Cons s rest)
  have "\<forall>t \<in> set rest. start_of s + size_sig s \<le> start_of t \<and> start_of t + size_sig t \<le> hi"
  proof
    fix t assume t: "t \<in> set rest"
    have "start_of s \<le> start_of t" using Cons.prems(1) t by simp
    moreover have "disjoint_fields s t" using Cons.prems(2) t by simp
    moreover have "0 < size_sig t" using Cons.prems(3) t by simp
    ultimately have "start_of s + size_sig s \<le> start_of t" by (simp add: disjoint_fields_ordered)
    then show "start_of s + size_sig s \<le> start_of t \<and> start_of t + size_sig t \<le> hi"
      using Cons.prems(4) t by simp
  qed
  moreover have "start_of s + size_sig s \<le> hi" using Cons.prems(4) by simp
  ultimately have "in_sequence (start_of s + size_sig s) rest hi"
    using Cons.prems by (intro Cons.IH) simp_all
  then show ?case using Cons.prems(4) by simp
qed

lemma bitstruct_format_loop:
  "bitstruct_format f signalsToDecode =
     fst (format_loop (frame_size f * 8) (frame_size f * 8)
            (sorted_by_startbit (format_signals f signalsToDecode)))
     @ (if snd (format_loop (frame_size f * 8) (frame_size f * 8)
                  (sorted_by_startbit (format_signals f signalsToDecode))) \<noteq> 0
        then [Padding (snd (format_loop (frame_size f * 8) (frame_size f * 8)
                  (sorted_by_startbit (format_signals f signalsToDecode))))]
        else [])"
  by (cases signalsToDecode)
    (simp_all add: bitstruct_format_def format_signals_def Let_def split_beta)

text \<open>
  C1, as stated: for every set of signals whose bit fields are pairwise disjoint and lie
  within the payload, the widths of the pieces of the format add up to
  \<open>frame.size * 8\<close>. A signal of width 0 breaks this: in a frame of one byte with a
  signal at bits 4 to 7 followed by a signal of width 0 at bit 4, no two fields share a
  bit and both lie within the payload, but the format is \<open>p4 <s4 <s0 p4\<close>, 12 bits.
\<close>

theorem bitstruct_format_zero_width_counterexample:
  "non_overlapping (signals zero_width_frame)
   \<and> list_all (fits_payload zero_width_frame) (signals zero_width_frame)
   \<and> bitstruct_format zero_width_frame None
       = [Padding 4, Field True TypeS 4, Field True TypeS 0, Padding 4]
   \<and> calcsize (bitstruct_format zero_width_frame None) = 12
   \<and> frame_size zero_width_frame * 8 = 8"
  by code_simp

text \<open>
  C1, amended: for every frame and every list of signals of positive width (the given
  ones, or all signals of the frame) whose bit fields are pairwise disjoint and lie
  within the payload, the widths of the pieces of the format (signals and padding) add
  up to \<open>frame.size * 8\<close> exactly.
\<close>

theorem bitstruct_format_width:
  assumes "non_overlapping (format_signals f signalsToDecode)"
    and "list_all (fits_payload f) (format_signals f signalsToDecode)"
    and "list_all (\<lambda>s. 0 < size_sig s) (format_signals f signalsToDecode)"
  shows "calcsize (bitstruct_format f signalsToDecode) = frame_size f * 8"
proof (cases "format_signals f signalsToDecode = []")
  case True
  then show ?thesis
    by (simp add: bitstruct_format_loop sorted_by_startbit_def calcsize_def)
next
  case False
  let ?F = "frame_size f * 8"
  let ?given = "format_signals f signalsToDecode"
  obtain s where s: "s \<in> set ?given"
    using False by (cases ?given) auto
  have "0 \<le> start_of s" "start_of s + size_sig s \<le> ?F" "0 < size_sig s"
    using s assms(2,3) by (simp_all add: list_all_iff fits_payload_def)
  then have F: "0 \<le> ?F" by linarith
  have seq: "in_sequence 0 (sorted_by_startbit ?given) ?F"
    unfolding sorted_by_startbit_def
  proof (rule in_sequence_sorted)
    show "sorted (map start_of (sort_key start_of ?given))"
      by (rule sorted_sort_key)
    show "non_overlapping (sort_key start_of ?given)"
      using assms(1) by (simp add: non_overlapping_sort)
    show "\<forall>s \<in> set (sort_key start_of ?given). 0 < size_sig s"
      using assms(3) by (simp add: list_all_iff)
    show "\<forall>s \<in> set (sort_key start_of ?given). 0 \<le> start_of s \<and> start_of s + size_sig s \<le> ?F"
      using assms(2) by (simp add: list_all_iff fits_payload_def)
    show "0 \<le> ?F" by (rule F)
  qed
  from format_loop_width [OF seq] show ?thesis
    by (simp add: bitstruct_format_loop calcsize_def)
qed

theorem bitstruct_format_width_witness:
  "bitstruct_format two_signal_frame None
     = [Padding 2, Field True TypeS 4, Padding 2, Field False TypeU 6, Padding 2]
   \<and> calcsize (bitstruct_format two_signal_frame None) = frame_size two_signal_frame * 8"
proof -
  have 1: "non_overlapping (format_signals two_signal_frame None)"
    by code_simp
  have 2: "list_all (fits_payload two_signal_frame) (format_signals two_signal_frame None)"
    by code_simp
  have 3: "list_all (\<lambda>s. 0 < size_sig s) (format_signals two_signal_frame None)"
    by code_simp
  have 4: "bitstruct_format two_signal_frame None
     = [Padding 2, Field True TypeS 4, Padding 2, Field False TypeU 6, Padding 2]"
    by code_simp
  from bitstruct_format_width [OF 1 2 3] 4 show ?thesis by simp
qed

section \<open>Encoding and decoding a multiplexed frame\<close>

lemma example_frames_constructed:
  "list_all (\<lambda>s. Signal (name s) (startBit s) (size_sig s) (is_little_endian s) (is_signed s)
                   (multiplex s) = Inr s) (signals zero_width_frame)"
  "list_all (\<lambda>s. Signal (name s) (startBit s) (size_sig s) (is_little_endian s) (is_signed s)
                   (multiplex s) = Inr s) (signals two_signal_frame)"
  "list_all (\<lambda>s. Signal (name s) (startBit s) (size_sig s) (is_little_endian s) (is_signed s)
                   (multiplex s) = Inr s) (signals mux_frame)"
  "list_all (\<lambda>s. Signal (name s) (startBit s) (size_sig s) (is_little_endian s) (is_signed s)
                   (multiplex s) = Inr s) (signals mux_frame_be)"
  "list_all (\<lambda>s. Signal (name s) (startBit s) (size_sig s) (is_little_endian s) (is_signed s)
                   (multiplex s) = Inr s) (signals far_frame)"
  "Signal ''M'' 7 12 False False MuxNone = Inr msb_signal"
  by (simp_all add: zero_width_frame_def two_signal_frame_def mux_frame_def mux_frame_be_def
      far_frame_def plain_frame_def msb_signal_def Signal_def Signal_scaled_def default_limits
      Signal_init_def attrs_post_init_def multiplexSetter_def)

lemma encode_mux_frame_signals:
  "search_multiplexer None (signals mux_frame) data_A
     = Some (Signal_init ''mux'' 0 2 True True MuxMultiplexor 0 1 (- 2) 1, Some (Num 0))
   \<and> map name (filter (\<lambda>sig. mux_val_is_given (mux_val sig) (Some (Num 0)) \<or> mux_val sig = None)
                  (signals mux_frame)) = [''mux'', ''A'']
   \<and> bitstruct_format mux_frame
        (Some (Signal_init ''mux'' 0 2 True True MuxMultiplexor 0 1 (- 2) 1
               # filter (\<lambda>sig. mux_val_is_given (mux_val sig) (Some (Num 0)) \<or> mux_val sig = None)
                   (signals mux_frame)))
      = [Field True TypeS 2, Field True TypeS 2, Field True TypeS 4, Padding 2]"
  by (simp add: mux_frame_def data_A_def Signal_init_def attrs_post_init_def multiplexSetter_def
      mux_val_is_given_def bitstruct_format_def sorted_by_startbit_def getStartbit_def
      numbering_differs_def signal_bitstruct_format_def Let_def)

text \<open>
  C3. For the frame of one byte with a multiplexor at bits 0 and 1, \<open>A\<close> (multiplex
  value 0) at bits 2 to 5 and \<open>B\<close> (multiplex value 1) at bits 2 to 7, decoding what
  \<open>encode\<close> returns for \<open>{mux: 0, A: 5}\<close> should give \<open>{mux: 0, A: 5}\<close>, and for
  \<open>{mux: 1, B: 30}\<close> it should give \<open>{mux: 1, B: 30}\<close>. On the code it does not:
  \<open>encode\<close> puts the multiplexor into its list of signals twice, so the format has 10
  bits, the payload has two bytes and the other signal is shifted by two bits; \<open>decode\<close>
  then reads 4 for \<open>A\<close> and -7 for \<open>B\<close> (1 and 23 when the signals are big endian and
  unsigned). \<open>decode\<close> itself is right on the payload \<open>0x28\<close> that carries
  \<open>{mux: 0, A: 5}\<close> in one byte.
\<close>

theorem decode_encode_mux_frame:
  "fst (encode mux_frame data_A) = Inr [10, 0]
   \<and> decode_encode mux_frame data_A = Inr [(''mux'', Num 0), (''A'', Num 4)]
   \<and> decode_encode mux_frame data_B = Inr [(''mux'', Num 1), (''B'', Num (- 7))]
   \<and> decode_encode mux_frame_be data_A = Inr [(''mux'', Num 0), (''A'', Num 1)]
   \<and> decode_encode mux_frame_be data_B = Inr [(''mux'', Num 1), (''B'', Num 23)]
   \<and> decode mux_frame [40] False = Inr [(''mux'', Num 0), (''A'', Num 5)]"
  by code_simp

end
